theory Spec2Isabelle
  imports Complex_Main
begin

chapter \<open>The program\<close>

section \<open>JavaScript strings and values used by the pipeline\<close>

text \<open>
  Strings are byte lists. The helpers below follow the JavaScript string methods the
  sources call, on ASCII text: \<open>toLowerCase\<close> maps \<open>A\<close>..\<open>Z\<close>, \<open>trim\<close> removes
  the ASCII white space characters, \<open>\d\<close> of a regular expression is \<open>0\<close>..\<open>9\<close>.
\<close>

definition is_digit :: "char \<Rightarrow> bool" where
  "is_digit c = (c \<in> set ''0123456789'')"

definition is_space :: "char \<Rightarrow> bool" where
  "is_space c = (c \<in> set [CHR '' '', CHR 0x09, CHR 0x0A, CHR 0x0B, CHR 0x0C, CHR 0x0D])"

definition lower_char :: "char \<Rightarrow> char" where
  "lower_char c =
     (case map_of (zip ''ABCDEFGHIJKLMNOPQRSTUVWXYZ'' ''abcdefghijklmnopqrstuvwxyz'') c of
        Some d \<Rightarrow> d
      | None \<Rightarrow> c)"

definition toLowerCase :: "string \<Rightarrow> string" where
  "toLowerCase s = map lower_char s"

definition trim :: "string \<Rightarrow> string" where
  "trim s = rev (dropWhile is_space (rev (dropWhile is_space s)))"

fun startsWith :: "string \<Rightarrow> string \<Rightarrow> bool" where
  "startsWith s [] = True"
| "startsWith [] (c # cs) = False"
| "startsWith (x # xs) (c # cs) = (x = c \<and> startsWith xs cs)"

fun str_includes :: "string \<Rightarrow> string \<Rightarrow> bool" where
  "str_includes [] t = (t = [])"
| "str_includes (x # xs) t = (startsWith (x # xs) t \<or> str_includes xs t)"

text \<open>
  A product identifier arrives from the catalog as a JSON number (a non-negative
  integer) or a JSON string. \<open>String(id)\<close> prints such a number in decimal and leaves
  a string as it is; two identifiers are the same value only if they are of the same
  kind.
\<close>

datatype ident = NumId nat | StrId string

definition digit_char :: "nat \<Rightarrow> char" where
  "digit_char d = ''0123456789'' ! d"

function decimal :: "nat \<Rightarrow> string" where
  "decimal n = (if n < 10 then [digit_char n] else decimal (n div 10) @ [digit_char (n mod 10)])"
  by pat_completeness auto
termination
  by (relation "measure (\<lambda>n. n)") auto

declare decimal.simps [simp del]

fun String :: "ident \<Rightarrow> string" where
  "String (NumId n) = decimal n"
| "String (StrId s) = s"

section \<open>Display products\<close>

text \<open>
  The record produced by \<open>formatProductForDisplay\<close>. The fields kept here are the
  identifier and those derived from the fields of a catalog product that some function
  below reads; the others (description, image, url, ...) are copied along and read by
  none. A null or missing name is \<open>None\<close>.
\<close>

record display_product =
  d_id :: ident
  d_name :: "string option"
  d_minPrice :: "rat option"
  d_occasion :: string
  d_ingredients :: string
  d_isOneHourDelivery :: bool
  d_productTag :: string

section \<open>JavaScript \<open>Map\<close>\<close>

text \<open>
  A \<open>Map\<close> keeps its entries in insertion order; setting an existing key replaces the
  value in place. It is an association list without repeated keys.
\<close>

type_synonym ('k, 'v) js_map = "('k \<times> 'v) list"

fun map_set :: "('k, 'v) js_map \<Rightarrow> 'k \<Rightarrow> 'v \<Rightarrow> ('k, 'v) js_map" where
  "map_set [] k v = [(k, v)]"
| "map_set ((k', v') # m) k v = (if k' = k then (k, v) # m else (k', v') # map_set m k v)"

definition new_Map :: "('k \<times> 'v) list \<Rightarrow> ('k, 'v) js_map" where
  "new_Map entries = foldl (\<lambda>m (k, v). map_set m k v) [] entries"

definition map_get :: "('k, 'v) js_map \<Rightarrow> 'k \<Rightarrow> 'v option" where
  "map_get m k = map_of m k"

definition map_delete :: "('k, 'v) js_map \<Rightarrow> 'k \<Rightarrow> ('k, 'v) js_map" where
  "map_delete m k = filter (\<lambda>e. fst e \<noteq> k) m"

definition map_values :: "('k, 'v) js_map \<Rightarrow> 'v list" where
  "map_values m = map snd m"

section \<open>Reconciliation: \<open>reorderProductsByMention\<close>\<close>

text \<open>
  \<open>match_tag s\<close> matches the regular expression \<open>\[ID:(\d+)\]\<close> at the start of \<open>s\<close>
  and returns the captured digits with the text after the match.
\<close>

definition match_tag :: "string \<Rightarrow> (string \<times> string) option" where
  "match_tag s =
     (if startsWith s ''[ID:'' then
        (let body = drop 4 s;
             ds = takeWhile is_digit body;
             rest = dropWhile is_digit body
         in if ds \<noteq> [] \<and> startsWith rest '']'' then Some (ds, drop 1 rest) else None)
      else None)"

text \<open>
  \<open>idPattern_exec s\<close> is one call of \<open>idPattern.exec\<close> with \<open>s\<close> the text from
  \<open>lastIndex\<close> on: the leftmost match, or \<open>None\<close> when there is none.
\<close>

fun idPattern_exec :: "string \<Rightarrow> (string \<times> string) option" where
  "idPattern_exec [] = None"
| "idPattern_exec (c # cs) =
     (case match_tag (c # cs) of
        Some m \<Rightarrow> Some m
      | None \<Rightarrow> idPattern_exec cs)"

lemma match_tag_shorter: "match_tag s = Some (d, r) \<Longrightarrow> length r < length s"
proof -
  assume m: "match_tag s = Some (d, r)"
  then have sw: "startsWith s ''[ID:''" and r: "r = drop 1 (dropWhile is_digit (drop 4 s))"
    by (auto simp: match_tag_def Let_def split: if_splits)
  from sw have pos: "0 < length s"
    by (cases s) auto
  have "length (dropWhile is_digit (drop 4 s)) \<le> length (drop 4 s)"
    by (rule length_dropWhile_le)
  then have "length r \<le> length s - 4"
    unfolding r by simp
  with pos show ?thesis by arith
qed

lemma idPattern_exec_shorter: "idPattern_exec s = Some (d, r) \<Longrightarrow> length r < length s"
proof (induction s)
  case Nil
  then show ?case by simp
next
  case (Cons c cs)
  show ?case
  proof (cases "match_tag (c # cs)")
    case None
    with Cons show ?thesis by fastforce
  next
    case (Some m)
    with Cons.prems have "match_tag (c # cs) = Some (d, r)" by simp
    then show ?thesis by (rule match_tag_shorter)
  qed
qed

text \<open>The \<open>while\<close> loop collecting \<open>mentionedIds\<close>.\<close>

function collect_ids :: "string list \<Rightarrow> string \<Rightarrow> string list" where
  "collect_ids mentionedIds s =
     (case idPattern_exec s of
        None \<Rightarrow> mentionedIds
      | Some (ident, rest) \<Rightarrow>
          collect_ids (if ident \<in> set mentionedIds then mentionedIds else mentionedIds @ [ident]) rest)"
  by pat_completeness auto
termination
  by (relation "measure (\<lambda>(m, s). length s)") (auto dest: idPattern_exec_shorter)

declare collect_ids.simps [simp del]

text \<open>
  The \<open>forEach\<close> over \<open>mentionedIds\<close>: the state is the list \<open>reordered\<close> and the
  map \<open>displayMap\<close>, from which a placed product is deleted.
\<close>

fun place_mentioned ::
  "(string, display_product) js_map \<Rightarrow> string list \<Rightarrow>
   display_product list \<times> (string, display_product) js_map \<Rightarrow>
   display_product list \<times> (string, display_product) js_map" where
  "place_mentioned allProductsMap [] st = st"
| "place_mentioned allProductsMap (i # ids) (reordered, displayMap) =
     (let product = (case map_get displayMap i of
                       Some p \<Rightarrow> Some p
                     | None \<Rightarrow> map_get allProductsMap i)
      in case product of
           Some p \<Rightarrow> place_mentioned allProductsMap ids (reordered @ [p], map_delete displayMap i)
         | None \<Rightarrow> place_mentioned allProductsMap ids (reordered, displayMap))"

definition reorderProductsByMention ::
  "string \<Rightarrow> display_product list \<Rightarrow> display_product list \<Rightarrow> display_product list" where
  "reorderProductsByMention aiResponse displayProducts allAvailableProducts =
     (let mentionedIds = collect_ids [] aiResponse
      in if length mentionedIds = 0 then displayProducts
         else
           let displayMap = new_Map (map (\<lambda>p. (String (d_id p), p)) displayProducts);
               allProductsMap = new_Map (map (\<lambda>p. (String (d_id p), p)) allAvailableProducts);
               (reordered, displayMap') = place_mentioned allProductsMap mentionedIds ([], displayMap);
               remaining = map_values displayMap';
               slotsLeft = 8 - int (length reordered)
           in if slotsLeft > 0 then reordered @ take (nat slotsLeft) remaining else reordered)"

section \<open>Catalog products and \<open>filterProducts\<close>\<close>

text \<open>
  A raw catalog product, with the fields the pipeline reads (\<open>p_id\<close> is the field
  \<open>id\<close>, \<open>p_search_score\<close> the field \<open>@search.score\<close>). A null or missing field is
  \<open>None\<close>; prices and scores are finite numbers.
\<close>

record product =
  p_id :: ident
  p_name :: "string option"
  p_minPrice :: "rat option"
  p_occasion :: "string option"
  p_ingrediantNames :: "string option"
  p_isOneHourDelivery :: bool
  p_productImageTag :: "string option"
  p_search_score :: "rat option"

text \<open>The \<open>filters\<close> object; an absent key is \<open>None\<close> (or \<open>False\<close>).\<close>

record filters =
  f_minBudget :: "rat option"
  f_maxBudget :: "rat option"
  f_occasion :: "string option"
  f_excludeIngredients :: "string list option"
  f_urgentDelivery :: bool

definition filterProducts :: "product list \<Rightarrow> filters \<Rightarrow> product list" where
  "filterProducts products filters =
     (let filtered = products;
          filtered =
            (case f_minBudget filters of
               None \<Rightarrow> filtered
             | Some minBudget \<Rightarrow>
                 filter (\<lambda>p. case p_minPrice p of None \<Rightarrow> False | Some m \<Rightarrow> m \<ge> minBudget) filtered);
          filtered =
            (case f_maxBudget filters of
               None \<Rightarrow> filtered
             | Some maxBudget \<Rightarrow>
                 filter (\<lambda>p. case p_minPrice p of None \<Rightarrow> False | Some m \<Rightarrow> m \<le> maxBudget) filtered);
          budgetFiltered = filtered;
          filtered =
            (case f_occasion filters of
               None \<Rightarrow> filtered
             | Some occasion \<Rightarrow>
                 if occasion = [] then filtered
                 else
                   let occ = toLowerCase occasion;
                       filtered =
                         filter (\<lambda>p. case p_occasion p of
                                        None \<Rightarrow> False
                                      | Some po \<Rightarrow> po \<noteq> [] \<and> str_includes (toLowerCase po) occ) filtered
                   in if length filtered = 0 then budgetFiltered else filtered);
          filtered =
            (case f_excludeIngredients filters of
               None \<Rightarrow> filtered
             | Some excludeIngredients \<Rightarrow>
                 if length excludeIngredients > 0 then
                   filter (\<lambda>p.
                     let ingredients =
                           toLowerCase (case p_ingrediantNames p of None \<Rightarrow> [] | Some s \<Rightarrow> s)
                     in \<not> list_ex (\<lambda>exc. str_includes ingredients (toLowerCase exc)) excludeIngredients)
                     filtered
                 else filtered);
          filtered = (if f_urgentDelivery filters then filter p_isOneHourDelivery filtered else filtered)
      in filtered)"

section \<open>The two projections of a catalog product\<close>

text \<open>
  \<open>cleanProductForLLM\<close> and \<open>formatProductForDisplay\<close> copy the identifier and the
  other fields into a new object, a missing string becoming the empty string.
\<close>

record llm_product =
  l_id :: ident
  l_name :: "string option"
  l_minPrice :: "rat option"
  l_occasion :: string
  l_ingredients :: string
  l_isOneHourDelivery :: bool
  l_productTag :: string

definition or_empty :: "string option \<Rightarrow> string" where
  "or_empty v = (case v of None \<Rightarrow> [] | Some s \<Rightarrow> s)"

definition cleanProductForLLM :: "product \<Rightarrow> llm_product" where
  "cleanProductForLLM product =
     \<lparr>l_id = p_id product, l_name = p_name product, l_minPrice = p_minPrice product,
      l_occasion = or_empty (p_occasion product),
      l_ingredients = or_empty (p_ingrediantNames product),
      l_isOneHourDelivery = p_isOneHourDelivery product,
      l_productTag = or_empty (p_productImageTag product)\<rparr>"

definition formatProductForDisplay :: "product \<Rightarrow> display_product" where
  "formatProductForDisplay product =
     \<lparr>d_id = p_id product, d_name = p_name product, d_minPrice = p_minPrice product,
      d_occasion = or_empty (p_occasion product),
      d_ingredients = or_empty (p_ingrediantNames product),
      d_isOneHourDelivery = p_isOneHourDelivery product,
      d_productTag = or_empty (p_productImageTag product)\<rparr>"

section \<open>Intent, conversation, requests\<close>

text \<open>
  The intent object as the extraction prompt asks for it and as the fallback builds it.
  A null field is \<open>None\<close>.
\<close>

record intent =
  i_search_keywords :: "string list option"
  i_occasion :: "string option"
  i_budget_min :: "rat option"
  i_budget_max :: "rat option"
  i_recipient :: "string option"
  i_dietary_restrictions :: "string list option"
  i_urgency :: "string option"
  i_product_type_preference :: "string option"
  i_intent_type :: "string option"
  i_needs_clarification :: bool
  i_clarification_topic :: "string option"
  i_sentiment :: "string option"

record turn =
  t_role :: string
  t_content :: string

text \<open>
  The text of a message is a pure function of the prompt builder and its arguments; a
  message content is recorded as that builder applied to those arguments.
\<close>

datatype content =
    SYSTEM_PROMPT
  | IntentSystemPrompt
  | IntentExtractionPrompt string string
  | ClarificationPrompt string intent string
  | ResponsePrompt string "llm_product list" intent string
  | ComparisonPrompt "llm_product list" string

record nim_request =
  rq_messages :: "(string \<times> content) list"
  rq_temperature :: rat
  rq_max_tokens :: nat
  rq_stream :: bool

text \<open>
  What the two services can answer. A reply is unreachable (the \<open>fetch\<close> rejects) or
  carries a status and a body; a catalog body that is not JSON is \<open>None\<close>; the body of
  the inference service holds the text \<open>choices[0].message.content\<close>, if any.
\<close>

datatype nim_body = Not_Json | Content "string option"

datatype nim_reply = Nim_Unreachable | Nim_Response nat nim_body

datatype catalog_reply = Catalog_Unreachable | Catalog_Response nat "product list option"

datatype error = MissingApiKey | NimApiError nat | FetchFailed | InvalidBody

section \<open>The world outside the pipeline\<close>

text \<open>
  The state the pipeline can change or observe: the module's \<open>searchCache\<close>, the
  clock read by \<open>Date.now()\<close>, and the requests sent so far to the catalog endpoint and
  to the inference endpoint. The environment fixes the configured key, the reply (and
  the time it takes) to the \<open>n\<close>-th request of each kind, and \<open>JSON.parse\<close> on the
  intent text (\<open>None\<close> when it throws).
\<close>

record world =
  searchCache :: "string \<rightharpoonup> (product list \<times> int)"
  clock :: int
  catalog_calls :: "string list"
  nim_calls :: "nim_request list"

record env =
  api_key :: "string option"
  edible_api :: "nat \<Rightarrow> string \<Rightarrow> nat \<times> catalog_reply"
  nim_api :: "nat \<Rightarrow> nim_request \<Rightarrow> nat \<times> nim_reply"
  JSON_parse :: "string \<Rightarrow> intent option"

definition response_ok :: "nat \<Rightarrow> bool" where
  "response_ok status = (200 \<le> status \<and> status \<le> 299)"

section \<open>Language model gateway\<close>

text \<open>
  One \<open>fetch\<close> to the inference endpoint: the request is logged, the environment
  answers, time passes. \<open>callLLM\<close> throws without a key, on a rejected fetch, on a
  status that is not ok and on a body that is not JSON; a missing content is the empty
  string. \<open>callLLMStream\<close> returns the body unread.
\<close>

definition nim_fetch :: "env \<Rightarrow> nim_request \<Rightarrow> world \<Rightarrow> nim_reply \<times> world" where
  "nim_fetch e rq w =
     (let (took, reply) = nim_api e (length (nim_calls w)) rq
      in (reply, w\<lparr>nim_calls := nim_calls w @ [rq], clock := clock w + int took\<rparr>))"

definition callLLM ::
  "env \<Rightarrow> (string \<times> content) list \<Rightarrow> rat \<Rightarrow> nat \<Rightarrow> world \<Rightarrow> (error + string) \<times> world" where
  "callLLM e messages temperature maxTokens w =
     (case api_key e of
        None \<Rightarrow> (Inl MissingApiKey, w)
      | Some apiKey \<Rightarrow>
          if apiKey = [] then (Inl MissingApiKey, w)
          else
            (case nim_fetch e \<lparr>rq_messages = messages, rq_temperature = temperature,
                                    rq_max_tokens = maxTokens, rq_stream = False\<rparr> w of
               (Nim_Unreachable, w') \<Rightarrow> (Inl FetchFailed, w')
             | (Nim_Response status body, w') \<Rightarrow>
                 if \<not> response_ok status then (Inl (NimApiError status), w')
                 else (case body of
                         Not_Json \<Rightarrow> (Inl InvalidBody, w')
                       | Content c \<Rightarrow> (Inr (or_empty c), w'))))"

definition callLLMStream ::
  "env \<Rightarrow> (string \<times> content) list \<Rightarrow> rat \<Rightarrow> nat \<Rightarrow> world \<Rightarrow> (error + nim_body) \<times> world" where
  "callLLMStream e messages temperature maxTokens w =
     (case api_key e of
        None \<Rightarrow> (Inl MissingApiKey, w)
      | Some apiKey \<Rightarrow>
          if apiKey = [] then (Inl MissingApiKey, w)
          else
            (case nim_fetch e \<lparr>rq_messages = messages, rq_temperature = temperature,
                                    rq_max_tokens = maxTokens, rq_stream = True\<rparr> w of
               (Nim_Unreachable, w') \<Rightarrow> (Inl FetchFailed, w')
             | (Nim_Response status body, w') \<Rightarrow>
                 if \<not> response_ok status then (Inl (NimApiError status), w')
                 else (Inr body, w')))"

section \<open>Catalog client\<close>

definition CACHE_TTL :: int where
  "CACHE_TTL = 5 * 60 * 1000"

text \<open>
  \<open>searchProducts\<close> runs without interruption up to its \<open>await fetch\<close>: it validates
  the keyword, consults the cache and, on a miss, issues the request. \<open>search_begin\<close> is
  that part; the task it leaves is either settled or waits for request number \<open>n\<close>.
\<close>

datatype search_task = Settled "product list" | Pending nat string

definition search_begin :: "string \<Rightarrow> world \<Rightarrow> search_task \<times> world" where
  "search_begin keyword w =
     (if keyword = [] \<or> length (trim keyword) = 0 then (Settled [], w)
      else
        let cacheKey = trim (toLowerCase keyword);
            hit = (case searchCache w cacheKey of
                     None \<Rightarrow> None
                   | Some (data, timestamp) \<Rightarrow>
                       if clock w - timestamp < CACHE_TTL then Some data else None);
            w1 = (case searchCache w cacheKey of
                    None \<Rightarrow> w
                  | Some cached \<Rightarrow>
                      if hit = None then w\<lparr>searchCache := (searchCache w)(cacheKey := None)\<rparr> else w)
        in case hit of
             Some data \<Rightarrow> (Settled data, w1)
           | None \<Rightarrow>
               (Pending (length (catalog_calls w1)) cacheKey,
                w1\<lparr>catalog_calls := catalog_calls w1 @ [cacheKey]\<rparr>))"

text \<open>
  The statements of the \<open>try\<close> block after the request was sent: \<open>Inl\<close> is an
  exception raised there, \<open>Inr None\<close> the early \<open>return []\<close> on a response that is
  not ok, \<open>Inr (Some data)\<close> the parsed body.
\<close>

definition read_response :: "catalog_reply \<Rightarrow> error + product list option" where
  "read_response reply =
     (case reply of
        Catalog_Unreachable \<Rightarrow> Inl FetchFailed
      | Catalog_Response status body \<Rightarrow>
          if \<not> response_ok status then Inr None
          else (case body of None \<Rightarrow> Inl InvalidBody | Some data \<Rightarrow> Inr (Some data)))"

text \<open>
  \<open>search_settle\<close> is the rest of \<open>searchProducts\<close>, run when the reply arrives: the
  \<open>catch\<close> turns every exception into the empty list.
\<close>

definition search_settle :: "env \<Rightarrow> search_task \<Rightarrow> world \<Rightarrow> (error + product list) \<times> world" where
  "search_settle e task w =
     (case task of
        Settled data \<Rightarrow> (Inr data, w)
      | Pending n cacheKey \<Rightarrow>
          (case edible_api e n cacheKey of
             (took, reply) \<Rightarrow>
               let w1 = w\<lparr>clock := clock w + int took\<rparr>
               in (case read_response reply of
                     Inl err \<Rightarrow> (Inr [], w1)
                   | Inr None \<Rightarrow> (Inr [], w1)
                   | Inr (Some data) \<Rightarrow>
                       (Inr data,
                        w1\<lparr>searchCache := (searchCache w1)(cacheKey := Some (data, clock w1))\<rparr>))))"

definition searchProducts :: "env \<Rightarrow> string \<Rightarrow> world \<Rightarrow> (error + product list) \<times> world" where
  "searchProducts e keyword w =
     (case search_begin keyword w of (task, w1) \<Rightarrow> search_settle e task w1)"

text \<open>
  \<open>multiSearch\<close>: \<open>keywords.map\<close> starts every search in keyword order, each up to its
  \<open>await\<close>; \<open>Promise.all\<close> then waits for all of them. The replies are taken in request
  order; \<open>results\<close> is in keyword order whatever the order of arrival.
\<close>

fun begin_all :: "string list \<Rightarrow> world \<Rightarrow> search_task list \<times> world" where
  "begin_all [] w = ([], w)"
| "begin_all (kw # kws) w =
     (case search_begin kw w of
        (task, w1) \<Rightarrow> (case begin_all kws w1 of (tasks, w2) \<Rightarrow> (task # tasks, w2)))"

fun settle_all :: "env \<Rightarrow> search_task list \<Rightarrow> world \<Rightarrow> (error + product list list) \<times> world" where
  "settle_all e [] w = (Inr [], w)"
| "settle_all e (task # tasks) w =
     (case search_settle e task w of
        (r, w1) \<Rightarrow>
          (case settle_all e tasks w1 of
             (rs, w2) \<Rightarrow>
               (case r of
                  Inl err \<Rightarrow> (Inl err, w2)
                | Inr data \<Rightarrow> (case rs of Inl err \<Rightarrow> (Inl err, w2) | Inr ds \<Rightarrow> (Inr (data # ds), w2)))))"

text \<open>The merge loops, with the set \<open>seen\<close> and the array \<open>merged\<close> as state.\<close>

definition merge_product :: "product \<Rightarrow> ident set \<times> product list \<Rightarrow> ident set \<times> product list" where
  "merge_product product st =
     (case st of
        (seen, merged) \<Rightarrow>
          if p_id product \<notin> seen then (insert (p_id product) seen, merged @ [product])
          else (seen, merged))"

definition merge_results :: "product list list \<Rightarrow> product list" where
  "merge_results results = snd (fold (\<lambda>resultSet st. fold merge_product resultSet st) results ({}, []))"

definition multiSearch :: "env \<Rightarrow> string list option \<Rightarrow> world \<Rightarrow> (error + product list) \<times> world" where
  "multiSearch e keywords w =
     (case keywords of
        None \<Rightarrow> (Inr [], w)
      | Some kws \<Rightarrow>
          if length kws = 0 then (Inr [], w)
          else
            (case begin_all kws w of
               (tasks, w1) \<Rightarrow>
                 (case settle_all e tasks w1 of
                    (Inl err, w2) \<Rightarrow> (Inl err, w2)
                  | (Inr results, w2) \<Rightarrow> (Inr (merge_results results), w2))))"

section \<open>Pipeline orchestrator\<close>

fun join_with :: "string \<Rightarrow> string list \<Rightarrow> string" where
  "join_with sep [] = []"
| "join_with sep [x] = x"
| "join_with sep (x # y # ys) = x @ sep @ join_with sep (y # ys)"

fun split_on :: "char \<Rightarrow> string \<Rightarrow> string list" where
  "split_on c [] = [[]]"
| "split_on c (x # xs) =
     (if x = c then [] # split_on c xs
      else (case split_on c xs of
              [] \<Rightarrow> [[x]]
            | piece # pieces \<Rightarrow> (x # piece) # pieces))"

text \<open>\<open>s.replace("_", " ")\<close>: only the first underscore is replaced.\<close>

fun replace_underscore :: "string \<Rightarrow> string" where
  "replace_underscore [] = []"
| "replace_underscore (c # cs) = (if c = CHR ''_'' then CHR '' '' # cs else c # replace_underscore cs)"

text \<open>
  The conversation summary: \<open>slice(-6)\<close>, one line per turn, joined by line feeds.
\<close>

definition history_window :: "turn list \<Rightarrow> string" where
  "history_window conversationHistory =
     join_with [CHR 0x0A]
       (map (\<lambda>m. (if t_role m = ''user'' then ''Customer'' else ''Concierge'') @ '': '' @ t_content m)
          (drop (length conversationHistory - 6) conversationHistory))"

text \<open>
  Stripping a markdown fence: every match of \<open>```json?\n?\<close> is removed (three
  backquotes, \<open>jso\<close>, an optional \<open>n\<close>, an optional line feed), then every remaining
  run of three backquotes.
\<close>

definition skip_optional :: "char \<Rightarrow> string \<Rightarrow> string" where
  "skip_optional c s = (case s of [] \<Rightarrow> [] | x # xs \<Rightarrow> if x = c then xs else s)"

lemma length_skip_optional: "length (skip_optional c s) \<le> length s"
  by (cases s) (auto simp: skip_optional_def)

definition fence :: string where
  "fence = [CHR 0x60, CHR 0x60, CHR 0x60]"

function strip_json_fences :: "string \<Rightarrow> string" where
  "strip_json_fences [] = []"
| "strip_json_fences (c # cs) =
     (if startsWith (c # cs) (fence @ ''jso'')
      then strip_json_fences (skip_optional (CHR 0x0A) (skip_optional CHR ''n'' (drop 6 (c # cs))))
      else c # strip_json_fences cs)"
  by pat_completeness auto
termination
proof (relation "measure length")
  fix c :: char and cs :: string
  have "length (skip_optional (CHR 0x0A) (skip_optional CHR ''n'' (drop 6 (c # cs))))
        \<le> length (drop 6 (c # cs))"
    using length_skip_optional [of "CHR 0x0A" "skip_optional CHR ''n'' (drop 6 (c # cs))"]
      length_skip_optional [of "CHR ''n''" "drop 6 (c # cs)"]
    by linarith
  then show "(skip_optional (CHR 0x0A) (skip_optional CHR ''n'' (drop 6 (c # cs))), c # cs)
             \<in> measure length"
    by simp
qed simp_all

function strip_fences :: "string \<Rightarrow> string" where
  "strip_fences [] = []"
| "strip_fences (c # cs) =
     (if startsWith (c # cs) fence then strip_fences (drop 3 (c # cs))
      else c # strip_fences cs)"
  by pat_completeness auto
termination
  by (relation "measure length") simp_all

definition jsonStr :: "string \<Rightarrow> string" where
  "jsonStr result =
     (let s = trim result
      in if startsWith s fence then trim (strip_fences (strip_json_fences s)) else s)"

definition fallback_intent :: "string \<Rightarrow> intent" where
  "fallback_intent userMessage =
     \<lparr>i_search_keywords = Some [join_with '' '' (take 3 (split_on CHR '' '' userMessage))],
      i_occasion = None,
      i_budget_min = None,
      i_budget_max = None,
      i_recipient = None,
      i_dietary_restrictions = Some [],
      i_urgency = None,
      i_product_type_preference = Some ''any'',
      i_intent_type = Some ''browse'',
      i_needs_clarification = False,
      i_clarification_topic = None,
      i_sentiment = Some ''neutral''\<rparr>"

definition intent_messages :: "string \<Rightarrow> turn list \<Rightarrow> (string \<times> content) list" where
  "intent_messages userMessage conversationHistory =
     [(''system'', IntentSystemPrompt),
      (''user'', IntentExtractionPrompt userMessage (history_window conversationHistory))]"

definition extractIntent ::
  "env \<Rightarrow> string \<Rightarrow> turn list \<Rightarrow> world \<Rightarrow> (error + intent) \<times> world" where
  "extractIntent e userMessage conversationHistory w =
     (case callLLM e (intent_messages userMessage conversationHistory) 0 512 w of
        (Inl err, w1) \<Rightarrow> (Inl err, w1)
      | (Inr result, w1) \<Rightarrow>
          (case JSON_parse e (jsonStr result) of
             Some parsed \<Rightarrow> (Inr parsed, w1)
           | None \<Rightarrow> (Inr (fallback_intent userMessage), w1)))"

definition occasion_keyword :: "intent \<Rightarrow> string option" where
  "occasion_keyword intent =
     (case i_occasion intent of
        None \<Rightarrow> None
      | Some occasion \<Rightarrow>
          if occasion \<noteq> [] \<and> occasion \<noteq> ''null'' then Some (replace_underscore occasion) else None)"

text \<open>
  \<open>searchFromIntent\<close>. The array \<open>keywords\<close> is the intent's own array when that is not
  null, so the \<open>push\<close> of the occasion changes the intent too; the later assignments to
  \<open>keywords\<close> do not. The intent is returned as the call leaves it.
\<close>

definition searchFromIntent ::
  "env \<Rightarrow> intent \<Rightarrow> world \<Rightarrow> (error + product list) \<times> intent \<times> world" where
  "searchFromIntent e intent w =
     (let keywords = (case i_search_keywords intent of None \<Rightarrow> [] | Some ks \<Rightarrow> ks);
          pushed = (case i_occasion intent of
                      None \<Rightarrow> keywords
                    | Some occasion \<Rightarrow>
                        if occasion \<noteq> [] \<and> occasion \<noteq> ''null'' \<and> occasion \<notin> set keywords
                        then keywords @ [replace_underscore occasion] else keywords);
          intent' = (case i_search_keywords intent of
                       None \<Rightarrow> intent
                     | Some ks \<Rightarrow> intent\<lparr>i_search_keywords := Some pushed\<rparr>);
          keywords = (if length pushed = 0 then [''popular gifts'', ''best sellers''] else pushed);
          keywords = take 3 keywords
      in (case multiSearch e (Some keywords) w of (products, w') \<Rightarrow> (products, intent', w')))"

text \<open>
  \<open>Array.prototype.sort\<close> is stable. The comparator of \<open>filterAndRank\<close> orders by a
  key, so the sorted array is the stable sort by it: insertion from the right, each
  element placed before the first one it does not come after.
\<close>

fun insert_sorted :: "('a \<Rightarrow> 'a \<Rightarrow> rat) \<Rightarrow> 'a \<Rightarrow> 'a list \<Rightarrow> 'a list" where
  "insert_sorted cmp x [] = [x]"
| "insert_sorted cmp x (y # ys) = (if cmp x y \<le> 0 then x # y # ys else y # insert_sorted cmp x ys)"

definition js_sort :: "('a \<Rightarrow> 'a \<Rightarrow> rat) \<Rightarrow> 'a list \<Rightarrow> 'a list" where
  "js_sort cmp xs = foldr (insert_sorted cmp) xs []"

definition rank_compare :: "product \<Rightarrow> product \<Rightarrow> rat" where
  "rank_compare a b =
     (let aTopSeller = (if str_includes (or_empty (p_productImageTag a)) ''Top Seller'' then - 10 else 0);
          bTopSeller = (if str_includes (or_empty (p_productImageTag b)) ''Top Seller'' then - 10 else 0)
      in if aTopSeller \<noteq> bTopSeller then aTopSeller - bTopSeller
         else (case p_search_score b of None \<Rightarrow> 0 | Some sc \<Rightarrow> sc)
              - (case p_search_score a of None \<Rightarrow> 0 | Some sc \<Rightarrow> sc))"

definition truthy_number :: "rat option \<Rightarrow> rat option" where
  "truthy_number v = (case v of None \<Rightarrow> None | Some x \<Rightarrow> if x = 0 then None else Some x)"

definition intent_filters :: "intent \<Rightarrow> filters" where
  "intent_filters intent =
     \<lparr>f_minBudget = truthy_number (i_budget_min intent),
      f_maxBudget = truthy_number (i_budget_max intent),
      f_occasion = occasion_keyword intent,
      f_excludeIngredients =
        (case i_dietary_restrictions intent of
           None \<Rightarrow> None
         | Some ds \<Rightarrow> if length ds > 0 then Some ds else None),
      f_urgentDelivery = (i_urgency intent = Some ''one_hour'' \<or> i_urgency intent = Some ''same_day'')\<rparr>"

definition filterAndRank :: "product list \<Rightarrow> intent \<Rightarrow> product list" where
  "filterAndRank products intent =
     (let filters = intent_filters intent;
          filtered = filterProducts products filters
      in js_sort rank_compare filtered)"

text \<open>The results of \<open>processMessage\<close> and of \<open>processMessageStream\<close>.\<close>

record pipeline_result =
  r_message :: string
  r_products :: "display_product list"
  r_intent :: intent

record stream_result =
  s_stream :: nim_body
  s_products :: "display_product list"
  s_allAvailableProducts :: "display_product list option"
  s_intent :: intent

definition clarification_messages :: "string \<Rightarrow> intent \<Rightarrow> turn list \<Rightarrow> (string \<times> content) list" where
  "clarification_messages userMessage intent conversationHistory =
     [(''system'', SYSTEM_PROMPT),
      (''user'', ClarificationPrompt userMessage intent (history_window conversationHistory))]"

definition response_messages ::
  "string \<Rightarrow> llm_product list \<Rightarrow> intent \<Rightarrow> turn list \<Rightarrow> (string \<times> content) list" where
  "response_messages userMessage productsForLLM intent conversationHistory =
     [(''system'', SYSTEM_PROMPT),
      (''user'', ResponsePrompt userMessage productsForLLM intent (history_window conversationHistory))]"

definition processMessage ::
  "env \<Rightarrow> string \<Rightarrow> turn list \<Rightarrow> world \<Rightarrow> (error + pipeline_result) \<times> world" where
  "processMessage e userMessage conversationHistory w =
     (case extractIntent e userMessage conversationHistory w of
        (Inl err, w1) \<Rightarrow> (Inl err, w1)
      | (Inr intent, w1) \<Rightarrow>
          if i_needs_clarification intent then
            (case callLLM e (clarification_messages userMessage intent conversationHistory) (7 / 10) 256 w1 of
               (Inl err, w2) \<Rightarrow> (Inl err, w2)
             | (Inr clarificationResponse, w2) \<Rightarrow>
                 (Inr \<lparr>r_message = clarificationResponse, r_products = [], r_intent = intent\<rparr>, w2))
          else
            (case searchFromIntent e intent w1 of
               (Inl err, intent', w2) \<Rightarrow> (Inl err, w2)
             | (Inr allProducts, intent', w2) \<Rightarrow>
                 (let rankedProducts = filterAndRank allProducts intent';
                      topProducts = take 10 rankedProducts;
                      productsForLLM = map cleanProductForLLM topProducts;
                      displayProducts = map formatProductForDisplay (take 8 rankedProducts);
                      allAvailableProducts = map formatProductForDisplay topProducts
                  in (case callLLM e (response_messages userMessage productsForLLM intent' conversationHistory)
                             (7 / 10) 1024 w2 of
                        (Inl err, w3) \<Rightarrow> (Inl err, w3)
                      | (Inr aiResponse, w3) \<Rightarrow>
                          (Inr \<lparr>r_message = aiResponse,
                                r_products =
                                  reorderProductsByMention aiResponse displayProducts allAvailableProducts,
                                r_intent = intent'\<rparr>, w3)))))"

definition processMessageStream ::
  "env \<Rightarrow> string \<Rightarrow> turn list \<Rightarrow> world \<Rightarrow> (error + stream_result) \<times> world" where
  "processMessageStream e userMessage conversationHistory w =
     (case extractIntent e userMessage conversationHistory w of
        (Inl err, w1) \<Rightarrow> (Inl err, w1)
      | (Inr intent, w1) \<Rightarrow>
          if i_needs_clarification intent then
            (case callLLMStream e (clarification_messages userMessage intent conversationHistory)
                    (7 / 10) 256 w1 of
               (Inl err, w2) \<Rightarrow> (Inl err, w2)
             | (Inr stream, w2) \<Rightarrow>
                 (Inr \<lparr>s_stream = stream, s_products = [], s_allAvailableProducts = None,
                       s_intent = intent\<rparr>, w2))
          else
            (case searchFromIntent e intent w1 of
               (Inl err, intent', w2) \<Rightarrow> (Inl err, w2)
             | (Inr allProducts, intent', w2) \<Rightarrow>
                 (let rankedProducts = filterAndRank allProducts intent';
                      topProducts = take 10 rankedProducts;
                      productsForLLM = map cleanProductForLLM topProducts;
                      displayProducts = map formatProductForDisplay (take 8 rankedProducts);
                      allAvailableProducts = map formatProductForDisplay topProducts
                  in (case callLLMStream e
                             (response_messages userMessage productsForLLM intent' conversationHistory)
                             (7 / 10) 1024 w2 of
                        (Inl err, w3) \<Rightarrow> (Inl err, w3)
                      | (Inr stream, w3) \<Rightarrow>
                          (Inr \<lparr>s_stream = stream, s_products = displayProducts,
                                s_allAvailableProducts = Some allAvailableProducts,
                                s_intent = intent'\<rparr>, w3)))))"

text \<open>\<open>compareProducts\<close> returns an object whose only field is the message.\<close>

definition compareProducts ::
  "env \<Rightarrow> ident list \<Rightarrow> product list \<Rightarrow> string \<Rightarrow> world \<Rightarrow> (error + string) \<times> world" where
  "compareProducts e productIds allProducts userContext w =
     (let productsToCompare =
            map cleanProductForLLM (filter (\<lambda>p. p_id p \<in> set productIds) allProducts)
      in if length productsToCompare < 2
         then (Inr ''Please select at least 2 products to compare.'', w)
         else callLLM e [(''system'', SYSTEM_PROMPT),
                         (''user'', ComparisonPrompt productsToCompare userContext)] (1 / 2) 1024 w)"

chapter \<open>The specification's wording\<close>

text \<open>
  Definitions that follow the words of the specification, to be compared with the
  program, and the auxiliary notions the statements need.
\<close>

section \<open>Reconciliation\<close>

text \<open>
  \<open>all_tags\<close> lists every captured identifier of the text, one per iteration of the
  \<open>exec\<close> loop, before duplicates are dropped.
\<close>

function all_tags :: "string \<Rightarrow> string list" where
  "all_tags s =
     (case idPattern_exec s of
        None \<Rightarrow> []
      | Some (ident, rest) \<Rightarrow> ident # all_tags rest)"
  by pat_completeness auto
termination
  by (relation "measure length") (auto dest: idPattern_exec_shorter)

declare all_tags.simps [simp del]

text \<open>Collapsing duplicates to their first occurrence.\<close>

definition keep_first :: "'a list \<Rightarrow> 'a list" where
  "keep_first xs = rev (remdups (rev xs))"

text \<open>
  The reconciled list in the specification's words: the mentioned products in mention
  order, each from the nominal list if it is there and else from the broader list, an
  identifier of neither list skipped; then the nominal products that were not
  mentioned, in their order, up to 8 products in all.
\<close>

definition lookup_product :: "display_product list \<Rightarrow> string \<Rightarrow> display_product option" where
  "lookup_product ps i = find (\<lambda>p. String (d_id p) = i) ps"

definition reconcile_spec ::
  "string \<Rightarrow> display_product list \<Rightarrow> display_product list \<Rightarrow> display_product list" where
  "reconcile_spec text nominal broader =
     (let ids = keep_first (all_tags text)
      in if ids = [] then nominal
         else
           let mentioned =
                 concat (map (\<lambda>i. case lookup_product nominal i of
                                       Some p \<Rightarrow> [p]
                                     | None \<Rightarrow> (case lookup_product broader i of
                                                   Some p \<Rightarrow> [p]
                                                 | None \<Rightarrow> [])) ids);
               leftover = filter (\<lambda>p. String (d_id p) \<notin> set ids) nominal
           in mentioned @ take (8 - length mentioned) leftover)"

text \<open>What one step of the \<open>forEach\<close> appends for the identifier \<open>i\<close>.\<close>

definition pick :: "(string, display_product) js_map \<Rightarrow> (string, display_product) js_map \<Rightarrow> string \<Rightarrow> display_product list" where
  "pick dm am i = (case map_of dm i of Some p \<Rightarrow> [p] | None \<Rightarrow> (case map_of am i of Some p \<Rightarrow> [p] | None \<Rightarrow> []))"

section \<open>The five filter steps\<close>

text \<open>
  The predicates of the steps: a price that is present and within the bound, a
  case-insensitive substring match on the occasion field, an ingredient text that
  contains an excluded term whatever the case.
\<close>

definition price_at_least :: "rat \<Rightarrow> product \<Rightarrow> bool" where
  "price_at_least bound p = (case p_minPrice p of None \<Rightarrow> False | Some m \<Rightarrow> bound \<le> m)"

definition price_at_most :: "rat \<Rightarrow> product \<Rightarrow> bool" where
  "price_at_most bound p = (case p_minPrice p of None \<Rightarrow> False | Some m \<Rightarrow> m \<le> bound)"

definition occasion_matches :: "string \<Rightarrow> product \<Rightarrow> bool" where
  "occasion_matches target p =
     (case p_occasion p of
        None \<Rightarrow> False
      | Some po \<Rightarrow> po \<noteq> [] \<and> str_includes (toLowerCase po) (toLowerCase target))"

definition contains_excluded :: "string list \<Rightarrow> product \<Rightarrow> bool" where
  "contains_excluded terms p =
     list_ex (\<lambda>t. str_includes (toLowerCase (case p_ingrediantNames p of None \<Rightarrow> [] | Some s \<Rightarrow> s))
                    (toLowerCase t)) terms"

text \<open>
  The steps. The occasion step is skipped, keeping its input, when it would eliminate
  every product.
\<close>

definition step_minBudget :: "filters \<Rightarrow> product list \<Rightarrow> product list" where
  "step_minBudget f ps =
     (case f_minBudget f of None \<Rightarrow> ps | Some bound \<Rightarrow> filter (price_at_least bound) ps)"

definition step_maxBudget :: "filters \<Rightarrow> product list \<Rightarrow> product list" where
  "step_maxBudget f ps =
     (case f_maxBudget f of None \<Rightarrow> ps | Some bound \<Rightarrow> filter (price_at_most bound) ps)"

definition occasion_active :: "filters \<Rightarrow> bool" where
  "occasion_active f = (case f_occasion f of None \<Rightarrow> False | Some target \<Rightarrow> target \<noteq> [])"

definition step_occasion :: "filters \<Rightarrow> product list \<Rightarrow> product list" where
  "step_occasion f ps =
     (if occasion_active f then
        (let matched = filter (occasion_matches (the (f_occasion f))) ps
         in if matched = [] then ps else matched)
      else ps)"

definition step_dietary :: "filters \<Rightarrow> product list \<Rightarrow> product list" where
  "step_dietary f ps =
     (case f_excludeIngredients f of
        None \<Rightarrow> ps
      | Some terms \<Rightarrow> filter (\<lambda>p. \<not> contains_excluded terms p) ps)"

definition step_urgent :: "filters \<Rightarrow> product list \<Rightarrow> product list" where
  "step_urgent f ps = (if f_urgentDelivery f then filter p_isOneHourDelivery ps else ps)"

section \<open>Merging search results\<close>

text \<open>The products of a list, each identifier kept at its first occurrence only.\<close>

function first_seen :: "product list \<Rightarrow> product list" where
  "first_seen [] = []"
| "first_seen (p # ps) = p # first_seen (filter (\<lambda>q. p_id q \<noteq> p_id p) ps)"
  by pat_completeness auto
termination
  by (relation "measure length") (auto simp: le_imp_less_Suc)

text \<open>The array \<open>results\<close> of \<open>multiSearch\<close>: one result set per keyword.\<close>

definition result_sets :: "env \<Rightarrow> string list \<Rightarrow> world \<Rightarrow> product list list" where
  "result_sets e kws w =
     (case begin_all kws w of
        (tasks, w1) \<Rightarrow> (case fst (settle_all e tasks w1) of Inl err \<Rightarrow> [] | Inr results \<Rightarrow> results))"

chapter \<open>Sample data\<close>

text \<open>A display product that carries nothing but its identifier.\<close>

definition sample_card :: "nat \<Rightarrow> display_product" where
  "sample_card n = \<lparr>d_id = NumId n, d_name = None, d_minPrice = None, d_occasion = [],
             d_ingredients = [], d_isOneHourDelivery = False, d_productTag = []\<rparr>"

definition no_filters :: filters where
  "no_filters = \<lparr>f_minBudget = None, f_maxBudget = None, f_occasion = None,
                 f_excludeIngredients = None, f_urgentDelivery = False\<rparr>"

text \<open>
  Three display products of which two have identifiers that are different values (a
  number and a string) but the same text.
\<close>

definition sample_tile :: "ident \<Rightarrow> display_product" where
  "sample_tile i = \<lparr>d_id = i, d_name = None, d_minPrice = None, d_occasion = [],
             d_ingredients = [], d_isOneHourDelivery = False, d_productTag = []\<rparr>"

definition colliding :: "display_product list" where
  "colliding = [sample_tile (NumId 20), sample_tile (StrId ''20''), sample_tile (NumId 30)]"

text \<open>Sample catalog entries.\<close>

definition strawberries :: product where
  "strawberries = \<lparr>p_id = NumId 1, p_name = Some ''Strawberry Box'', p_minPrice = Some (4999 / 100),
     p_occasion = Some ''Birthday, Anniversary'', p_ingrediantNames = Some ''Strawberry, Chocolate'',
     p_isOneHourDelivery = True, p_productImageTag = Some ''Top Seller'', p_search_score = Some 2\<rparr>"

definition fruit_bouquet :: product where
  "fruit_bouquet = \<lparr>p_id = NumId 2, p_name = Some ''Fruit Bouquet'', p_minPrice = Some 80,
     p_occasion = Some ''Get Well'', p_ingrediantNames = Some ''Pineapple, Melon'',
     p_isOneHourDelivery = False, p_productImageTag = None, p_search_score = Some 3\<rparr>"

definition cookie_tin :: product where
  "cookie_tin = \<lparr>p_id = NumId 3, p_name = Some ''Cookie Tin'', p_minPrice = Some 30,
     p_occasion = None, p_ingrediantNames = Some ''Wheat, Peanut Butter'',
     p_isOneHourDelivery = True, p_productImageTag = None, p_search_score = None\<rparr>"

definition unpriced :: product where
  "unpriced = \<lparr>p_id = NumId 4, p_name = Some ''Seasonal Special'', p_minPrice = None,
     p_occasion = Some ''Birthday'', p_ingrediantNames = None,
     p_isOneHourDelivery = True, p_productImageTag = None, p_search_score = Some 1\<rparr>"

definition strawberries_large :: product where
  "strawberries_large = strawberries\<lparr>p_name := Some ''Strawberry Box, large'', p_minPrice := Some 70\<rparr>"

definition wedding_under_50 :: filters where
  "wedding_under_50 = no_filters\<lparr>f_maxBudget := Some 50, f_occasion := Some ''wedding''\<rparr>"

text \<open>A sample environment: a catalog that knows two keywords.\<close>

definition fresh_world :: world where
  "fresh_world = \<lparr>searchCache = Map.empty, clock = 0, catalog_calls = [], nim_calls = []\<rparr>"

definition silent_nim :: "nat \<Rightarrow> nim_request \<Rightarrow> nat \<times> nim_reply" where
  "silent_nim n rq = (0, Nim_Unreachable)"

definition small_shop :: env where
  "small_shop =
     \<lparr>api_key = Some ''key'',
      edible_api = (\<lambda>n keyword.
         if keyword = ''berries'' then (120, Catalog_Response 200 (Some [strawberries, fruit_bouquet]))
         else if keyword = ''cookies'' then (80, Catalog_Response 200 (Some [cookie_tin, strawberries]))
         else (30, Catalog_Response 503 None)),
      nim_api = silent_nim,
      JSON_parse = (\<lambda>s. None)\<rparr>"

text \<open>
  A scripted environment: the first inference request is answered with \<open>intentText\<close>,
  which \<open>JSON.parse\<close> reads as \<open>parsed\<close>; every later one with \<open>reply\<close>; every catalog
  search finds \<open>shelf\<close>.
\<close>

definition scripted :: "string \<Rightarrow> intent option \<Rightarrow> string \<Rightarrow> product list \<Rightarrow> env" where
  "scripted intentText parsed reply shelf =
     \<lparr>api_key = Some ''key'',
      edible_api = (\<lambda>n keyword. (100, Catalog_Response 200 (Some shelf))),
      nim_api = (\<lambda>n rq. if n = 0 then (300, Nim_Response 200 (Content (Some intentText)))
                         else (900, Nim_Response 200 (Content (Some reply)))),
      JSON_parse = (\<lambda>s. if s = intentText then parsed else None)\<rparr>"

definition shelf_item :: "nat \<Rightarrow> product" where
  "shelf_item n =
     \<lparr>p_id = NumId n, p_name = Some ''Berry Box'', p_minPrice = Some 40, p_occasion = Some ''Birthday'',
      p_ingrediantNames = Some ''Strawberry'', p_isOneHourDelivery = False,
      p_productImageTag = None, p_search_score = None\<rparr>"

definition berries_intent :: intent where
  "berries_intent = (fallback_intent [])\<lparr>i_search_keywords := Some [''strawberries'']\<rparr>"

definition vague_intent :: intent where
  "vague_intent = (fallback_intent [])\<lparr>i_search_keywords := Some [], i_needs_clarification := True\<rparr>"

definition berries_json :: string where
  \<open>berries_json = ''{"search_keywords": ["strawberries"], "needs_clarification": false}''\<close>

definition vague_json :: string where
  \<open>vague_json = ''{"search_keywords": [], "needs_clarification": true}''\<close>

definition nine_mentions :: string where
  "nine_mentions = ''Try [ID:1], [ID:2], [ID:3], [ID:4], [ID:5], [ID:6], [ID:7], [ID:8] or [ID:9].''"

definition ten_items :: "product list" where
  "ten_items = map shelf_item [1, 2, 3, 4, 5, 6, 7, 8, 9, 10]"

chapter \<open>Properties\<close>

section \<open>Reconciliation\<close>

lemma keep_first_snoc:
  "keep_first (xs @ [x]) = (if x \<in> set xs then keep_first xs else keep_first xs @ [x])"
  by (simp add: keep_first_def)

lemma set_keep_first: "set (keep_first xs) = set xs"
  by (simp add: keep_first_def)

lemma distinct_keep_first: "distinct (keep_first xs)"
  by (simp add: keep_first_def)

lemma fold_collect:
  "fold (\<lambda>i m. if i \<in> set m then m else m @ [i]) ys (keep_first zs) = keep_first (zs @ ys)"
proof (induction ys arbitrary: zs)
  case Nil
  then show ?case by simp
next
  case (Cons y ys)
  have "(if y \<in> set (keep_first zs) then keep_first zs else keep_first zs @ [y]) = keep_first (zs @ [y])"
    by (simp add: keep_first_snoc set_keep_first)
  then show ?case using Cons.IH [of "zs @ [y]"] by simp
qed

lemma collect_ids_fold:
  "collect_ids m s = fold (\<lambda>i m. if i \<in> set m then m else m @ [i]) (all_tags s) m"
proof (induction m s rule: collect_ids.induct)
  case (1 mentionedIds s)
  show ?case
  proof (cases "idPattern_exec s")
    case None
    then show ?thesis by (simp add: collect_ids.simps [of mentionedIds s] all_tags.simps [of s])
  next
    case (Some a)
    obtain i rest where a: "a = (i, rest)" by (cases a)
    with Some 1 show ?thesis
      by (simp add: collect_ids.simps [of mentionedIds s] all_tags.simps [of s])
  qed
qed

lemma collect_ids_keep_first: "collect_ids [] s = keep_first (all_tags s)"
  using fold_collect [of "all_tags s" "[]"] by (simp add: collect_ids_fold keep_first_def)

lemma map_set_keys: "map fst (map_set m k v) = (if k \<in> fst ` set m then map fst m else map fst m @ [k])"
  by (induction m) (auto simp: rev_image_eqI)

lemma map_set_fresh: "k \<notin> fst ` set m \<Longrightarrow> map_set m k v = m @ [(k, v)]"
  by (induction m) auto

lemma map_set_entries: "set (map_set m k v) \<subseteq> insert (k, v) (set m)"
  by (induction m) (auto split: if_splits)

lemma foldl_map_set_distinct:
  "distinct (map fst m) \<Longrightarrow> distinct (map fst (foldl (\<lambda>m (k, v). map_set m k v) m es))"
proof (induction es arbitrary: m)
  case Nil
  then show ?case by simp
next
  case (Cons e es)
  obtain k v where e: "e = (k, v)" by (cases e)
  from Cons.prems have "distinct (map fst (map_set m k v))"
    by (auto simp: map_set_keys)
  then show ?case using Cons.IH e by simp
qed

lemma foldl_map_set_entries:
  "set (foldl (\<lambda>m (k, v). map_set m k v) m es) \<subseteq> set m \<union> set es"
proof (induction es arbitrary: m)
  case Nil
  then show ?case by simp
next
  case (Cons e es)
  obtain k v where e: "e = (k, v)" by (cases e)
  have "set (foldl (\<lambda>m (k, v). map_set m k v) (map_set m k v) es) \<subseteq> set (map_set m k v) \<union> set es"
    by (rule Cons.IH)
  with map_set_entries [of m k v] show ?case using e by auto
qed

lemma foldl_map_set_fresh:
  "distinct (map fst (m @ es)) \<Longrightarrow> foldl (\<lambda>m (k, v). map_set m k v) m es = m @ es"
proof (induction es arbitrary: m)
  case Nil
  then show ?case by simp
next
  case (Cons e es)
  obtain k v where e: "e = (k, v)" by (cases e)
  from Cons.prems e have fresh: "k \<notin> fst ` set m" by auto
  from Cons.prems e have "distinct (map fst ((m @ [(k, v)]) @ es))" by auto
  then have "foldl (\<lambda>m (k, v). map_set m k v) (m @ [(k, v)]) es = (m @ [(k, v)]) @ es"
    by (rule Cons.IH)
  then show ?case using e fresh by (simp add: map_set_fresh)
qed

lemma new_Map_distinct_keys: "distinct (map fst (new_Map es))"
  unfolding new_Map_def by (rule foldl_map_set_distinct) simp

lemma new_Map_entries: "set (new_Map es) \<subseteq> set es"
  unfolding new_Map_def using foldl_map_set_entries [of "[]" es] by simp

lemma new_Map_of_distinct: "distinct (map fst es) \<Longrightarrow> new_Map es = es"
  unfolding new_Map_def using foldl_map_set_fresh [of "[]" es] by simp

lemma map_of_filter_other: "j \<noteq> i \<Longrightarrow> map_of (filter (\<lambda>e. fst e \<noteq> i) m) j = map_of m j"
  by (induction m) auto

lemma pick_delete:
  assumes "i \<notin> set ids"
  shows "map (pick (map_delete dm i) am) ids = map (pick dm am) ids"
proof (rule map_cong [OF refl])
  fix j assume "j \<in> set ids"
  with assms have "j \<noteq> i" by auto
  then show "pick (map_delete dm i) am j = pick dm am j"
    by (simp add: pick_def map_delete_def map_of_filter_other)
qed

lemma filter_absent_key: "map_of dm i = None \<Longrightarrow> filter (\<lambda>e. fst e \<noteq> i) dm = dm"
  by (induction dm) (auto split: if_splits)

lemma place_mentioned_eq:
  "distinct ids \<Longrightarrow>
   place_mentioned am ids (r, dm) =
     (r @ concat (map (pick dm am) ids), filter (\<lambda>e. fst e \<notin> set ids) dm)"
proof (induction ids arbitrary: r dm)
  case Nil
  then show ?case by simp
next
  case (Cons i ids)
  from Cons.prems have fresh: "i \<notin> set ids" and d: "distinct ids" by auto
  have flt: "filter (\<lambda>e. fst e \<notin> set ids) (map_delete dm i) =
             filter (\<lambda>e. fst e \<notin> set (i # ids)) dm"
    unfolding map_delete_def by (induction dm) auto
  show ?case
  proof (cases "pick dm am i")
    case Nil
    then have none: "map_of dm i = None" "map_of am i = None"
      by (auto simp: pick_def split: option.splits)
    then have "filter (\<lambda>e. fst e \<noteq> i) dm = dm" by (simp add: filter_absent_key)
    then have same: "filter (\<lambda>e. fst e \<notin> set ids) dm = filter (\<lambda>e. fst e \<notin> set (i # ids)) dm"
      using flt by (simp add: map_delete_def)
    have "place_mentioned am (i # ids) (r, dm) = place_mentioned am ids (r, dm)"
      using none by (simp add: map_get_def)
    also have "\<dots> = (r @ concat (map (pick dm am) ids), filter (\<lambda>e. fst e \<notin> set ids) dm)"
      by (rule Cons.IH [OF d])
    finally show ?thesis using Nil same by simp
  next
    case (Cons p ps)
    then have p: "pick dm am i = [p]"
      by (auto simp: pick_def split: option.splits)
    then have "place_mentioned am (i # ids) (r, dm) =
               place_mentioned am ids (r @ [p], map_delete dm i)"
      by (auto simp: pick_def map_get_def split: option.splits)
    also have "\<dots> = ((r @ [p]) @ concat (map (pick (map_delete dm i) am) ids),
                      filter (\<lambda>e. fst e \<notin> set ids) (map_delete dm i))"
      by (rule Cons.IH [OF d])
    finally show ?thesis
      using p by (simp only: pick_delete [OF fresh] flt list.map concat.simps append_assoc append.simps)
  qed
qed

lemma map_of_keyed: "map_of (map (\<lambda>p. (k p, p)) xs) i = find (\<lambda>p. k p = i) xs"
  by (induction xs) auto

lemma values_of_keyed:
  "map snd (filter (\<lambda>e. fst e \<notin> S) (map (\<lambda>p. (k p, p)) xs)) = filter (\<lambda>p. k p \<notin> S) xs"
  by (induction xs) auto

lemma reorder_unfold:
  assumes "collect_ids [] text \<noteq> []"
  shows "reorderProductsByMention text nominal broader =
    (let ids = collect_ids [] text;
         dm = new_Map (map (\<lambda>p. (String (d_id p), p)) nominal);
         am = new_Map (map (\<lambda>p. (String (d_id p), p)) broader);
         placed = concat (map (pick dm am) ids)
     in placed @ take (8 - length placed) (map snd (filter (\<lambda>e. fst e \<notin> set ids) dm)))"
proof -
  have d: "distinct (collect_ids [] text)"
    by (simp add: collect_ids_keep_first distinct_keep_first)
  have slots: "(if 8 - int (length r) > 0 then r @ take (nat (8 - int (length r))) xs else r) =
               r @ take (8 - length r) xs"
    for r xs :: "display_product list"
  proof (cases "length r < 8")
    case True
    then have "nat (8 - int (length r)) = 8 - length r" by arith
    with True show ?thesis by simp
  next
    case False
    then show ?thesis by simp
  qed
  have "reorderProductsByMention text nominal broader =
    (let ids = collect_ids [] text;
         dm = new_Map (map (\<lambda>p. (String (d_id p), p)) nominal);
         am = new_Map (map (\<lambda>p. (String (d_id p), p)) broader);
         placed = concat (map (pick dm am) ids);
         remaining = map snd (filter (\<lambda>e. fst e \<notin> set ids) dm)
     in if 8 - int (length placed) > 0
        then placed @ take (nat (8 - int (length placed))) remaining else placed)"
    using assms
    by (simp add: reorderProductsByMention_def Let_def place_mentioned_eq [OF d] map_values_def)
  then show ?thesis
    by (simp only: Let_def slots)
qed

lemma reorder_reconcile:
  assumes "distinct (map (String \<circ> d_id) nominal)"
      and "distinct (map (String \<circ> d_id) broader)"
  shows "reorderProductsByMention text nominal broader = reconcile_spec text nominal broader"
proof (cases "collect_ids [] text = []")
  case True
  then show ?thesis
    by (simp add: reorderProductsByMention_def reconcile_spec_def collect_ids_keep_first)
next
  case False
  have n: "new_Map (map (\<lambda>p. (String (d_id p), p)) nominal) = map (\<lambda>p. (String (d_id p), p)) nominal"
    using assms(1) by (intro new_Map_of_distinct) (simp add: comp_def)
  have b: "new_Map (map (\<lambda>p. (String (d_id p), p)) broader) = map (\<lambda>p. (String (d_id p), p)) broader"
    using assms(2) by (intro new_Map_of_distinct) (simp add: comp_def)
  have pk: "pick (map (\<lambda>p. (String (d_id p), p)) nominal) (map (\<lambda>p. (String (d_id p), p)) broader) =
        (\<lambda>i. case lookup_product nominal i of
               Some p \<Rightarrow> [p]
             | None \<Rightarrow> (case lookup_product broader i of Some p \<Rightarrow> [p] | None \<Rightarrow> []))"
    by (rule ext) (simp add: pick_def map_of_keyed lookup_product_def split: option.splits)
  show ?thesis
    using False
    by (simp add: reorder_unfold [OF False] n b pk values_of_keyed reconcile_spec_def Let_def
        collect_ids_keep_first)
qed

text \<open>
  Claim C1. \<open>reorderProductsByMention\<close> reads the tags in order of first appearance,
  duplicates collapsed to the first occurrence; with no tag it returns the nominal list
  unchanged; and for lists that key each product by a distinct identifier (compared as
  strings, the way the code compares them) it returns what the specification
  describes: the mentioned products first in mention order, from the nominal list or
  else from the broader one, unknown identifiers dropped, then the unmentioned nominal
  products in their order in the remaining slots.
\<close>

theorem reorder_matches_spec:
  "collect_ids [] text = keep_first (all_tags text) \<and>
   (all_tags text = [] \<longrightarrow> reorderProductsByMention text nominal broader = nominal) \<and>
   (distinct (map (String \<circ> d_id) nominal) \<and> distinct (map (String \<circ> d_id) broader) \<longrightarrow>
      reorderProductsByMention text nominal broader = reconcile_spec text nominal broader)"
proof (intro conjI impI)
  show "collect_ids [] text = keep_first (all_tags text)"
    by (rule collect_ids_keep_first)
next
  assume "all_tags text = []"
  then show "reorderProductsByMention text nominal broader = nominal"
    by (simp add: reorderProductsByMention_def collect_ids_keep_first keep_first_def)
next
  assume "distinct (map (String \<circ> d_id) nominal) \<and> distinct (map (String \<circ> d_id) broader)"
  then show "reorderProductsByMention text nominal broader = reconcile_spec text nominal broader"
    by (simp add: reorder_reconcile)
qed

text \<open>
  The example of the specification: tags 20, 55, 20 over the nominal identifiers
  10, ..., 80 with 55 in the broader list give 20, 55, 10, 30, 40, 50, 60, 70.
\<close>

theorem reorder_matches_spec_witness:
  "distinct (map (String \<circ> d_id) (map sample_card [10, 20, 30, 40, 50, 60, 70, 80])) \<and>
   distinct (map (String \<circ> d_id) (map sample_card [10, 20, 30, 40, 50, 60, 70, 80, 55, 90])) \<and>
   map d_id (reorderProductsByMention ''[ID:20][ID:55][ID:20]''
       (map sample_card [10, 20, 30, 40, 50, 60, 70, 80])
       (map sample_card [10, 20, 30, 40, 50, 60, 70, 80, 55, 90])) =
     map NumId [20, 55, 10, 30, 40, 50, 60, 70]"
proof -
  have n: "distinct (map (String \<circ> d_id) (map sample_card [10, 20, 30, 40, 50, 60, 70, 80]))"
    by code_simp
  have b: "distinct (map (String \<circ> d_id) (map sample_card [10, 20, 30, 40, 50, 60, 70, 80, 55, 90]))"
    by code_simp
  have "map d_id (reconcile_spec ''[ID:20][ID:55][ID:20]''
       (map sample_card [10, 20, 30, 40, 50, 60, 70, 80])
       (map sample_card [10, 20, 30, 40, 50, 60, 70, 80, 55, 90])) =
     map NumId [20, 55, 10, 30, 40, 50, 60, 70]"
    by code_simp
  with n b
    reorder_matches_spec [of "''[ID:20][ID:55][ID:20]''" "map sample_card [10, 20, 30, 40, 50, 60, 70, 80]"
      "map sample_card [10, 20, 30, 40, 50, 60, 70, 80, 55, 90]"]
  show ?thesis
    by (simp only: simp_thms)
qed

text \<open>
  Without the distinctness the last part of C1 fails. The map \<open>displayMap\<close> is keyed by
  \<open>String(id)\<close>, so of two nominal products whose identifiers read the same it keeps
  one: the product 20 is neither mentioned nor shown, although slots remain.
\<close>

theorem reorder_loses_colliding_product:
  "distinct (map d_id colliding) \<and>
   map d_id (reorderProductsByMention ''Try [ID:30].'' colliding colliding) = [NumId 30, StrId ''20''] \<and>
   map d_id (reconcile_spec ''Try [ID:30].'' colliding colliding) = [NumId 30, NumId 20, StrId ''20''] \<and>
   reorderProductsByMention ''Try [ID:30].'' colliding colliding \<noteq>
     reconcile_spec ''Try [ID:30].'' colliding colliding"
proof -
  have d: "distinct (map d_id colliding)"
    by code_simp
  have a: "map d_id (reorderProductsByMention ''Try [ID:30].'' colliding colliding) = [NumId 30, StrId ''20'']"
    by code_simp
  have b: "map d_id (reconcile_spec ''Try [ID:30].'' colliding colliding) = [NumId 30, NumId 20, StrId ''20'']"
    by code_simp
  from a b have "reorderProductsByMention ''Try [ID:30].'' colliding colliding \<noteq>
     reconcile_spec ''Try [ID:30].'' colliding colliding"
    by auto
  with d a b show ?thesis by simp
qed

lemma pick_key:
  assumes "\<forall>e \<in> set dm. String (d_id (snd e)) = fst e" and "\<forall>e \<in> set am. String (d_id (snd e)) = fst e"
  shows "map (\<lambda>p. String (d_id p)) (pick dm am i) = (if pick dm am i = [] then [] else [i])"
proof -
  have "String (d_id p) = i" if "map_of m i = Some p" and "\<forall>e \<in> set m. String (d_id (snd e)) = fst e"
    for m :: "(string, display_product) js_map" and p
    using map_of_SomeD [OF that(1)] that(2) by auto
  with assms show ?thesis
    by (auto simp: pick_def split: option.splits)
qed

lemma placed_keys:
  assumes "\<forall>e \<in> set dm. String (d_id (snd e)) = fst e" and "\<forall>e \<in> set am. String (d_id (snd e)) = fst e"
  shows "map (\<lambda>p. String (d_id p)) (concat (map (pick dm am) ids)) = filter (\<lambda>i. pick dm am i \<noteq> []) ids"
  by (induction ids) (simp_all add: pick_key [OF assms])

lemma new_Map_keyed: "\<forall>e \<in> set (new_Map (map (\<lambda>p. (k p, p)) xs)). k (snd e) = fst e"
  using new_Map_entries [of "map (\<lambda>p. (k p, p)) xs"] by auto

text \<open>
  Claim C10. When the nominal list keys each product by a distinct identifier, no
  identifier occurs twice in the reconciled list. (The broader list needs no
  assumption: the keys of a \<open>Map\<close> are distinct, and a placed product leaves the pool.)
\<close>

theorem reorder_no_duplicates:
  assumes "distinct (map d_id nominal)"
  shows "distinct (map d_id (reorderProductsByMention text nominal broader))"
proof (cases "collect_ids [] text = []")
  case True
  with assms show ?thesis by (simp add: reorderProductsByMention_def)
next
  case False
  define ids where "ids = collect_ids [] text"
  define dm where "dm = new_Map (map (\<lambda>p. (String (d_id p), p)) nominal)"
  define am where "am = new_Map (map (\<lambda>p. (String (d_id p), p)) broader)"
  define placed where "placed = concat (map (pick dm am) ids)"
  define rest where "rest = map snd (filter (\<lambda>e. fst e \<notin> set ids) dm)"
  define key where "key = (\<lambda>p :: display_product. String (d_id p))"
  have out: "reorderProductsByMention text nominal broader = placed @ take (8 - length placed) rest"
    by (simp add: reorder_unfold [OF False] Let_def ids_def dm_def am_def placed_def rest_def)
  have kd: "\<forall>e \<in> set dm. String (d_id (snd e)) = fst e" and ka: "\<forall>e \<in> set am. String (d_id (snd e)) = fst e"
    unfolding dm_def am_def by (rule new_Map_keyed)+
  have dids: "distinct ids"
    by (simp add: ids_def collect_ids_keep_first distinct_keep_first)
  have pk: "map key placed = filter (\<lambda>i. pick dm am i \<noteq> []) ids"
    unfolding placed_def key_def by (rule placed_keys [OF kd ka])
  have "map key rest = map fst (filter (\<lambda>e. fst e \<notin> set ids) dm)"
    unfolding rest_def key_def using kd by (induction dm) auto
  moreover have "distinct (map fst dm)"
    unfolding dm_def by (rule new_Map_distinct_keys)
  ultimately have rk: "distinct (map key rest)" and disj: "set (map key rest) \<inter> set ids = {}"
    by (auto simp: distinct_map_filter)
  have "distinct (take (8 - length placed) (map key rest))"
    using rk by (rule distinct_take)
  moreover have "set (take (8 - length placed) (map key rest)) \<subseteq> set (map key rest)"
    by (rule set_take_subset)
  ultimately have "distinct (map key placed @ take (8 - length placed) (map key rest))"
    using pk dids disj by auto
  then have "distinct (map key (placed @ take (8 - length placed) rest))"
    by (simp add: take_map)
  then have "distinct (map String (map d_id (placed @ take (8 - length placed) rest)))"
    by (simp add: key_def comp_def)
  then have "distinct (map d_id (placed @ take (8 - length placed) rest))"
    by (simp only: distinct_map)
  then show ?thesis
    unfolding out .
qed

theorem reorder_no_duplicates_witness:
  "distinct (map d_id (map sample_card [1, 2, 3])) \<and>
   distinct (map d_id (reorderProductsByMention ''Try [ID:3], or [ID:9]; yes, [ID:3].''
       (map sample_card [1, 2, 3]) (map sample_card [1, 2, 3, 9])))"
proof -
  have n: "distinct (map d_id (map sample_card [1, 2, 3]))"
    by code_simp
  from n reorder_no_duplicates [OF n] show ?thesis
    by (simp only:)
qed

section \<open>Filtering\<close>

lemma filterProducts_steps:
  "filterProducts ps f =
     step_urgent f (step_dietary f (step_occasion f (step_maxBudget f (step_minBudget f ps))))"
  by (cases "f_minBudget f"; cases "f_maxBudget f"; cases "f_occasion f"; cases "f_excludeIngredients f")
     (simp_all add: filterProducts_def step_minBudget_def step_maxBudget_def step_occasion_def
       step_dietary_def step_urgent_def occasion_active_def Let_def price_at_least_def [abs_def]
       price_at_most_def [abs_def] occasion_matches_def [abs_def] contains_excluded_def [abs_def]
       list_ex_iff)

lemma idem_generic:
  fixes bud om rest :: "'a \<Rightarrow> bool" and a :: bool
  defines "X \<equiv> \<lambda>xs. (let B = filter bud xs in if a then (if filter om B = [] then B else filter om B) else B)"
  shows "filter rest (X (filter rest (X xs))) = filter rest (X xs)"
proof -
  define B where "B = filter bud xs"
  have keepB: "filter bud (filter rest B) = filter rest B"
    unfolding B_def by (simp add: filter_id_conv del: filter_filter)
  have keepR: "filter rest (filter rest ys) = filter rest ys" for ys
    by (simp add: filter_id_conv del: filter_filter)
  show ?thesis
  proof (cases "a \<and> filter om B \<noteq> []")
    case True
    define R where "R = filter rest (filter om B)"
    have X1: "X xs = filter om B"
      using True by (simp add: X_def B_def Let_def)
    have budR: "filter bud R = R" and omR: "filter om R = R" and restR: "filter rest R = R"
      unfolding R_def B_def by (simp_all add: filter_id_conv del: filter_filter)
    have "X R = R"
      using True by (simp add: X_def Let_def budR omR)
    then show ?thesis
      unfolding X1 R_def [symmetric] by (simp add: restR)
  next
    case False
    then have X1: "X xs = B"
      by (auto simp: X_def B_def Let_def)
    have om0: "a \<Longrightarrow> filter om (filter rest B) = []"
      using False by (auto simp: filter_empty_conv simp del: filter_filter)
    have "X (filter rest B) = filter rest B"
      unfolding X_def Let_def keepB using om0 by simp
    then show ?thesis
      unfolding X1 by (simp only: keepR)
  qed
qed

lemma filterProducts_shape:
  "filterProducts ps f =
     filter (\<lambda>p. (case f_excludeIngredients f of None \<Rightarrow> True | Some terms \<Rightarrow> \<not> contains_excluded terms p)
                \<and> (\<not> f_urgentDelivery f \<or> p_isOneHourDelivery p))
       (let B = filter (\<lambda>p. (case f_minBudget f of None \<Rightarrow> True | Some b \<Rightarrow> price_at_least b p)
                          \<and> (case f_maxBudget f of None \<Rightarrow> True | Some b \<Rightarrow> price_at_most b p)) ps
        in if occasion_active f
           then (if filter (occasion_matches (the (f_occasion f))) B = [] then B
                 else filter (occasion_matches (the (f_occasion f))) B)
           else B)"
proof -
  have bud: "step_maxBudget f (step_minBudget f ps) =
      filter (\<lambda>p. (case f_minBudget f of None \<Rightarrow> True | Some b \<Rightarrow> price_at_least b p)
                 \<and> (case f_maxBudget f of None \<Rightarrow> True | Some b \<Rightarrow> price_at_most b p)) ps"
    by (cases "f_minBudget f"; cases "f_maxBudget f")
       (simp_all add: step_minBudget_def step_maxBudget_def conj_commute)
  have rest: "step_urgent f (step_dietary f xs) =
      filter (\<lambda>p. (case f_excludeIngredients f of None \<Rightarrow> True | Some terms \<Rightarrow> \<not> contains_excluded terms p)
                \<and> (\<not> f_urgentDelivery f \<or> p_isOneHourDelivery p)) xs" for xs
    by (cases "f_excludeIngredients f"; cases "f_urgentDelivery f")
       (simp_all add: step_dietary_def step_urgent_def conj_commute)
  show ?thesis
    unfolding filterProducts_steps rest bud
    by (simp add: step_occasion_def Let_def)
qed

text \<open>
  Claim C8. \<open>filterProducts\<close> is idempotent: filtering its own output again with the
  same filter set changes nothing, also when the occasion step fell back.
\<close>

theorem filterProducts_idempotent:
  "filterProducts (filterProducts ps f) f = filterProducts ps f"
  unfolding filterProducts_shape
  by (rule idem_generic [where a = "occasion_active f" and om = "occasion_matches (the (f_occasion f))"])

text \<open>
  The fallback branch: no sample product is tagged for a wedding, so the two products
  within the budget are kept, and filtering them again gives the same two.
\<close>

theorem filterProducts_idempotent_witness:
  "map p_id (filterProducts [strawberries, fruit_bouquet, cookie_tin, unpriced] wedding_under_50) =
     [NumId 1, NumId 3] \<and>
   filterProducts (filterProducts [strawberries, fruit_bouquet, cookie_tin, unpriced] wedding_under_50)
     wedding_under_50 =
     filterProducts [strawberries, fruit_bouquet, cookie_tin, unpriced] wedding_under_50"
proof -
  have "map p_id (filterProducts [strawberries, fruit_bouquet, cookie_tin, unpriced] wedding_under_50) =
     [NumId 1, NumId 3]"
    by code_simp
  with filterProducts_idempotent [of "[strawberries, fruit_bouquet, cookie_tin, unpriced]" wedding_under_50]
  show ?thesis by (simp only:)
qed

text \<open>
  Claim C4. \<open>filterProducts\<close> is the composition of the five steps in the order
  minBudget, maxBudget, occasion, dietary exclusion, urgent delivery, each applied to
  the output of the one before. With the later filters switched off, the function
  returns the set after the occasion step; with the occasion switched off too, the set
  after the budget steps. When no budget-filtered product matches the occasion, the
  occasion step returns the budget-filtered set; and it never returns an empty list
  for a non-empty budget-filtered one.
\<close>

theorem filterProducts_order_and_fallback:
  "filterProducts ps f =
     step_urgent f (step_dietary f (step_occasion f (step_maxBudget f (step_minBudget f ps)))) \<and>
   (occasion_active f \<and>
    filter (occasion_matches (the (f_occasion f)))
      (filterProducts ps (f\<lparr>f_occasion := None, f_excludeIngredients := None, f_urgentDelivery := False\<rparr>)) = []
    \<longrightarrow> filterProducts ps (f\<lparr>f_excludeIngredients := None, f_urgentDelivery := False\<rparr>) =
        filterProducts ps (f\<lparr>f_occasion := None, f_excludeIngredients := None, f_urgentDelivery := False\<rparr>)) \<and>
   (filterProducts ps (f\<lparr>f_occasion := None, f_excludeIngredients := None, f_urgentDelivery := False\<rparr>) \<noteq> []
    \<longrightarrow> filterProducts ps (f\<lparr>f_excludeIngredients := None, f_urgentDelivery := False\<rparr>) \<noteq> [])"
proof (intro conjI)
  show "filterProducts ps f =
     step_urgent f (step_dietary f (step_occasion f (step_maxBudget f (step_minBudget f ps))))"
    by (rule filterProducts_steps)
  have B: "filterProducts ps (f\<lparr>f_occasion := None, f_excludeIngredients := None, f_urgentDelivery := False\<rparr>) =
           step_maxBudget f (step_minBudget f ps)"
    by (simp add: filterProducts_steps step_minBudget_def step_maxBudget_def step_occasion_def
        step_dietary_def step_urgent_def occasion_active_def)
  have O: "filterProducts ps (f\<lparr>f_excludeIngredients := None, f_urgentDelivery := False\<rparr>) =
           step_occasion f (step_maxBudget f (step_minBudget f ps))"
    by (simp add: filterProducts_steps step_minBudget_def step_maxBudget_def step_occasion_def
        step_dietary_def step_urgent_def occasion_active_def)
  show "occasion_active f \<and>
    filter (occasion_matches (the (f_occasion f)))
      (filterProducts ps (f\<lparr>f_occasion := None, f_excludeIngredients := None, f_urgentDelivery := False\<rparr>)) = []
    \<longrightarrow> filterProducts ps (f\<lparr>f_excludeIngredients := None, f_urgentDelivery := False\<rparr>) =
        filterProducts ps (f\<lparr>f_occasion := None, f_excludeIngredients := None, f_urgentDelivery := False\<rparr>)"
    unfolding B O by (simp add: step_occasion_def)
  show "filterProducts ps (f\<lparr>f_occasion := None, f_excludeIngredients := None, f_urgentDelivery := False\<rparr>) \<noteq> []
    \<longrightarrow> filterProducts ps (f\<lparr>f_excludeIngredients := None, f_urgentDelivery := False\<rparr>) \<noteq> []"
    unfolding B O by (simp add: step_occasion_def Let_def)
qed

theorem filterProducts_order_and_fallback_witness:
  "occasion_active wedding_under_50 \<and>
   filter (occasion_matches (the (f_occasion wedding_under_50)))
     (filterProducts [strawberries, fruit_bouquet, cookie_tin, unpriced]
        (wedding_under_50\<lparr>f_occasion := None, f_excludeIngredients := None, f_urgentDelivery := False\<rparr>)) = [] \<and>
   filterProducts [strawberries, fruit_bouquet, cookie_tin, unpriced]
        (wedding_under_50\<lparr>f_occasion := None, f_excludeIngredients := None, f_urgentDelivery := False\<rparr>) \<noteq> [] \<and>
   filterProducts [strawberries, fruit_bouquet, cookie_tin, unpriced]
        (wedding_under_50\<lparr>f_excludeIngredients := None, f_urgentDelivery := False\<rparr>) =
   filterProducts [strawberries, fruit_bouquet, cookie_tin, unpriced]
        (wedding_under_50\<lparr>f_occasion := None, f_excludeIngredients := None, f_urgentDelivery := False\<rparr>) \<and>
   filterProducts [strawberries, fruit_bouquet, cookie_tin, unpriced]
        (wedding_under_50\<lparr>f_excludeIngredients := None, f_urgentDelivery := False\<rparr>) \<noteq> []"
proof -
  have a: "occasion_active wedding_under_50"
    by code_simp
  have m: "filter (occasion_matches (the (f_occasion wedding_under_50)))
     (filterProducts [strawberries, fruit_bouquet, cookie_tin, unpriced]
        (wedding_under_50\<lparr>f_occasion := None, f_excludeIngredients := None, f_urgentDelivery := False\<rparr>)) = []"
    by code_simp
  have n: "filterProducts [strawberries, fruit_bouquet, cookie_tin, unpriced]
        (wedding_under_50\<lparr>f_occasion := None, f_excludeIngredients := None, f_urgentDelivery := False\<rparr>) \<noteq> []"
    by code_simp
  from a m n
    filterProducts_order_and_fallback [of "[strawberries, fruit_bouquet, cookie_tin, unpriced]" wedding_under_50]
  show ?thesis by blast
qed

section \<open>Catalog client\<close>

lemma set_first_seen: "set (first_seen ps) \<subseteq> set ps"
  by (induction ps rule: first_seen.induct) auto

lemma distinct_first_seen: "distinct (map p_id (first_seen ps))"
proof (induction ps rule: first_seen.induct)
  case 1
  then show ?case by simp
next
  case (2 p ps)
  have "p_id p \<notin> p_id ` set (first_seen (filter (\<lambda>q. p_id q \<noteq> p_id p) ps))"
    using set_first_seen [of "filter (\<lambda>q. p_id q \<noteq> p_id p) ps"] by auto
  with 2 show ?case by simp
qed

lemma fold_merge_product:
  "fold merge_product ps (seen, merged) =
     (seen \<union> p_id ` set ps, merged @ first_seen (filter (\<lambda>q. p_id q \<notin> seen) ps))"
proof (induction ps arbitrary: seen merged)
  case Nil
  then show ?case by simp
next
  case (Cons p ps)
  show ?case
  proof (cases "p_id p \<in> seen")
    case True
    then show ?thesis
      using Cons.IH [of seen merged] by (auto simp: merge_product_def)
  next
    case False
    have "filter (\<lambda>q. p_id q \<noteq> p_id p) (filter (\<lambda>q. p_id q \<notin> seen) ps) =
          filter (\<lambda>q. p_id q \<notin> insert (p_id p) seen) ps"
      by (induction ps) auto
    then show ?thesis
      using False Cons.IH [of "insert (p_id p) seen" "merged @ [p]"]
      by (simp add: merge_product_def del: filter_filter)
  qed
qed

lemma fold_fold_concat: "fold (\<lambda>xs st. fold f xs st) xss st = fold f (concat xss) st"
  by (induction xss arbitrary: st) simp_all

lemma merge_results_first_seen: "merge_results results = first_seen (concat results)"
  by (simp add: merge_results_def fold_fold_concat fold_merge_product)

lemma search_settle_returns: "\<exists>data. fst (search_settle e task w) = Inr data"
  by (cases task; cases "edible_api e (case task of Pending n k \<Rightarrow> n | _ \<Rightarrow> 0)
                                       (case task of Pending n k \<Rightarrow> k | _ \<Rightarrow> [])")
     (auto simp: search_settle_def Let_def split: sum.splits option.splits)

lemma settle_all_returns:
  "\<exists>results. fst (settle_all e tasks w) = Inr results \<and> length results = length tasks"
proof (induction tasks arbitrary: w)
  case Nil
  then show ?case by simp
next
  case (Cons task tasks)
  obtain r w1 where s: "search_settle e task w = (r, w1)" by (cases "search_settle e task w")
  with search_settle_returns [of e task w] obtain data where r: "r = Inr data" by auto
  obtain rs w2 where t: "settle_all e tasks w1 = (rs, w2)" by (cases "settle_all e tasks w1")
  with Cons.IH [of w1] obtain ds where ds: "rs = Inr ds" "length ds = length tasks" by auto
  show ?case using s r t ds by simp
qed

lemma length_begin_all: "length (fst (begin_all kws w)) = length kws"
proof (induction kws arbitrary: w)
  case Nil
  then show ?case by simp
next
  case (Cons kw kws)
  obtain task w1 where b: "search_begin kw w = (task, w1)" by (cases "search_begin kw w")
  obtain tasks w2 where t: "begin_all kws w1 = (tasks, w2)" by (cases "begin_all kws w1")
  from Cons.IH [of w1] t have "length tasks = length kws" by simp
  with b t show ?case by simp
qed

text \<open>
  Claim C5. For an absent or empty keyword list \<open>multiSearch\<close> returns the empty list
  and leaves the world as it is (no search call). For every keyword list it returns the
  products of the concatenated per-keyword result sets, in keyword order, each
  identifier kept at its first occurrence only; no identifier occurs twice.
\<close>

theorem multiSearch_merges:
  "multiSearch e None w = (Inr [], w) \<and>
   multiSearch e (Some []) w = (Inr [], w) \<and>
   length (result_sets e kws w) = length kws \<and>
   fst (multiSearch e (Some kws) w) = Inr (first_seen (concat (result_sets e kws w))) \<and>
   distinct (map p_id (first_seen (concat (result_sets e kws w))))"
proof (intro conjI)
  show "multiSearch e None w = (Inr [], w)" and "multiSearch e (Some []) w = (Inr [], w)"
    by (simp_all add: multiSearch_def)
  obtain tasks w1 where b: "begin_all kws w = (tasks, w1)" by (cases "begin_all kws w")
  obtain results where r: "fst (settle_all e tasks w1) = Inr results" "length results = length tasks"
    using settle_all_returns [of e tasks w1] by auto
  have rs: "result_sets e kws w = results"
    using b r by (simp add: result_sets_def)
  show "length (result_sets e kws w) = length kws"
    using length_begin_all [of kws w] b r rs by simp
  show "fst (multiSearch e (Some kws) w) = Inr (first_seen (concat (result_sets e kws w)))"
  proof (cases kws)
    case Nil
    with b r rs show ?thesis by (auto simp: multiSearch_def)
  next
    case (Cons k ks)
    then have "length kws \<noteq> 0" by simp
    then show ?thesis
      using b r unfolding rs
      by (cases "settle_all e tasks w1") (simp add: multiSearch_def merge_results_first_seen)
  qed
  show "distinct (map p_id (first_seen (concat (result_sets e kws w))))"
    by (rule distinct_first_seen)
qed

text \<open>
  Claim C6. For an empty or whitespace-only keyword \<open>searchProducts\<close> returns the empty
  list and leaves the world as it is (no request is sent). When the request is sent and
  the endpoint is unreachable, answers with a status that is not ok, or sends a body
  that does not parse, the result is the empty list. In every case the function
  returns a list: no error leaves it.
\<close>

theorem searchProducts_degrades:
  "(keyword = [] \<or> trim keyword = [] \<longrightarrow> searchProducts e keyword w = (Inr [], w)) \<and>
   (\<forall>n key w1.
      search_begin keyword w = (Pending n key, w1) \<and>
      (snd (edible_api e n key) = Catalog_Unreachable \<or>
       (\<exists>status body. snd (edible_api e n key) = Catalog_Response status body \<and> \<not> response_ok status) \<or>
       (\<exists>status. snd (edible_api e n key) = Catalog_Response status None))
      \<longrightarrow> fst (searchProducts e keyword w) = Inr []) \<and>
   (\<exists>data. fst (searchProducts e keyword w) = Inr data)"
proof (intro conjI allI impI)
  assume "keyword = [] \<or> trim keyword = []"
  then show "searchProducts e keyword w = (Inr [], w)"
    by (auto simp: searchProducts_def search_begin_def search_settle_def)
next
  fix n key w1
  assume a: "search_begin keyword w = (Pending n key, w1) \<and>
      (snd (edible_api e n key) = Catalog_Unreachable \<or>
       (\<exists>status body. snd (edible_api e n key) = Catalog_Response status body \<and> \<not> response_ok status) \<or>
       (\<exists>status. snd (edible_api e n key) = Catalog_Response status None))"
  then have "read_response (snd (edible_api e n key)) = Inr None \<or>
             (\<exists>err. read_response (snd (edible_api e n key)) = Inl err)"
    by (cases "snd (edible_api e n key)") (auto simp: read_response_def)
  with a show "fst (searchProducts e keyword w) = Inr []"
    by (cases "edible_api e n key") (auto simp: searchProducts_def search_settle_def Let_def)
next
  show "\<exists>data. fst (searchProducts e keyword w) = Inr data"
    using search_settle_returns by (auto simp: searchProducts_def split: prod.splits)
qed

theorem multiSearch_merges_witness:
  "map (map p_id) (result_sets small_shop [''Berries '', ''cookies''] fresh_world) =
     [[NumId 1, NumId 2], [NumId 3, NumId 1]] \<and>
   (\<exists>merged. fst (multiSearch small_shop (Some [''Berries '', ''cookies'']) fresh_world) = Inr merged \<and>
      map p_id merged = [NumId 1, NumId 2, NumId 3]) \<and>
   catalog_calls (snd (multiSearch small_shop (Some []) fresh_world)) = []"
proof -
  have r: "map (map p_id) (result_sets small_shop [''Berries '', ''cookies''] fresh_world) =
     [[NumId 1, NumId 2], [NumId 3, NumId 1]]"
    by code_simp
  have m: "map p_id (first_seen (concat (result_sets small_shop [''Berries '', ''cookies''] fresh_world))) =
     [NumId 1, NumId 2, NumId 3]"
    by code_simp
  have c: "catalog_calls fresh_world = []"
    by (simp add: fresh_world_def)
  from r m c multiSearch_merges [of small_shop fresh_world "[''Berries '', ''cookies'']"]
  show ?thesis by simp
qed

theorem searchProducts_degrades_witness:
  "trim ''   '' = [] \<and>
   fst (searchProducts small_shop ''   '' fresh_world) = Inr [] \<and>
   catalog_calls (snd (searchProducts small_shop ''   '' fresh_world)) = [] \<and>
   search_begin ''Fudge'' fresh_world = (Pending 0 ''fudge'', fresh_world\<lparr>catalog_calls := [''fudge'']\<rparr>) \<and>
   snd (edible_api small_shop 0 ''fudge'') = Catalog_Response 503 None \<and>
   \<not> response_ok 503 \<and>
   fst (searchProducts small_shop ''Fudge'' fresh_world) = Inr []"
proof -
  have blank: "trim ''   '' = []"
    by (simp add: trim_def is_space_def)
  have b: "search_begin ''Fudge'' fresh_world = (Pending 0 ''fudge'', fresh_world\<lparr>catalog_calls := [''fudge'']\<rparr>)"
    by (simp add: search_begin_def fresh_world_def trim_def toLowerCase_def lower_char_def
        is_space_def Let_def)
  have reply: "snd (edible_api small_shop 0 ''fudge'') = Catalog_Response 503 None"
    by (simp add: small_shop_def)
  have bad: "\<not> response_ok 503"
    by (simp add: response_ok_def)
  have c: "catalog_calls fresh_world = []"
    by (simp add: fresh_world_def)
  from blank b reply bad c searchProducts_degrades [of "''   ''" small_shop fresh_world]
    searchProducts_degrades [of "''Fudge''" small_shop fresh_world]
  show ?thesis by auto
qed

section \<open>Pipeline orchestrator\<close>

lemma nim_fetch_keeps_catalog:
  "nim_fetch e rq w = (reply, w') \<Longrightarrow>
   catalog_calls w' = catalog_calls w \<and> searchCache w' = searchCache w"
  by (auto simp: nim_fetch_def Let_def split: prod.splits)

lemma callLLM_keeps_catalog:
  assumes "callLLM e messages temperature maxTokens w = (r, w')"
  shows "catalog_calls w' = catalog_calls w \<and> searchCache w' = searchCache w"
proof (cases "api_key e = None \<or> api_key e = Some []")
  case True
  with assms show ?thesis by (auto simp: callLLM_def)
next
  case False
  then obtain k where k: "api_key e = Some k" "k \<noteq> []" by auto
  obtain reply w1 where f: "nim_fetch e \<lparr>rq_messages = messages, rq_temperature = temperature,
        rq_max_tokens = maxTokens, rq_stream = False\<rparr> w = (reply, w1)"
    by (cases "nim_fetch e \<lparr>rq_messages = messages, rq_temperature = temperature,
        rq_max_tokens = maxTokens, rq_stream = False\<rparr> w")
  from assms k f have "w' = w1"
    by (auto simp: callLLM_def split: nim_reply.splits if_splits nim_body.splits)
  with nim_fetch_keeps_catalog [OF f] show ?thesis by simp
qed

lemma callLLMStream_keeps_catalog:
  assumes "callLLMStream e messages temperature maxTokens w = (r, w')"
  shows "catalog_calls w' = catalog_calls w \<and> searchCache w' = searchCache w"
proof (cases "api_key e = None \<or> api_key e = Some []")
  case True
  with assms show ?thesis by (auto simp: callLLMStream_def)
next
  case False
  then obtain k where k: "api_key e = Some k" "k \<noteq> []" by auto
  obtain reply w1 where f: "nim_fetch e \<lparr>rq_messages = messages, rq_temperature = temperature,
        rq_max_tokens = maxTokens, rq_stream = True\<rparr> w = (reply, w1)"
    by (cases "nim_fetch e \<lparr>rq_messages = messages, rq_temperature = temperature,
        rq_max_tokens = maxTokens, rq_stream = True\<rparr> w")
  from assms k f have "w' = w1"
    by (auto simp: callLLMStream_def split: nim_reply.splits if_splits)
  with nim_fetch_keeps_catalog [OF f] show ?thesis by simp
qed

lemma extractIntent_keeps_catalog:
  assumes "extractIntent e userMessage conversationHistory w = (r, w')"
  shows "catalog_calls w' = catalog_calls w \<and> searchCache w' = searchCache w"
proof -
  obtain r0 w1 where c: "callLLM e (intent_messages userMessage conversationHistory) 0 512 w = (r0, w1)"
    by (cases "callLLM e (intent_messages userMessage conversationHistory) 0 512 w")
  with assms have "w' = w1"
    by (auto simp: extractIntent_def split: sum.splits option.splits)
  with callLLM_keeps_catalog [OF c] show ?thesis by simp
qed

text \<open>
  Claim C7. When the text the model returned does not parse as JSON (after the fence
  is stripped), \<open>extractIntent\<close> returns (it does not throw) the fallback intent:
  no clarification, intent type \<open>browse\<close>, and one keyword made of the first three
  space-separated words of the user message.
\<close>

theorem extractIntent_fallback:
  assumes "callLLM e (intent_messages userMessage conversationHistory) 0 512 w = (Inr result, w1)"
      and "JSON_parse e (jsonStr result) = None"
  shows "extractIntent e userMessage conversationHistory w = (Inr (fallback_intent userMessage), w1) \<and>
         i_needs_clarification (fallback_intent userMessage) = False \<and>
         i_intent_type (fallback_intent userMessage) = Some ''browse'' \<and>
         i_search_keywords (fallback_intent userMessage) =
           Some [join_with '' '' (take 3 (split_on CHR '' '' userMessage))]"
  using assms by (simp add: extractIntent_def fallback_intent_def)

lemma few_selected:
  assumes "length productIds < 2" and "distinct (map p_id allProducts)"
  shows "length (filter (\<lambda>p. p_id p \<in> set productIds) allProducts) < 2"
proof -
  let ?chosen = "filter (\<lambda>p. p_id p \<in> set productIds) allProducts"
  have "distinct (map p_id ?chosen)"
    using assms(2) by (rule distinct_map_filter)
  then have "length ?chosen = card (set (map p_id ?chosen))"
    by (metis distinct_card length_map)
  also have "\<dots> \<le> card (set productIds)"
    by (rule card_mono) auto
  also have "\<dots> \<le> length productIds"
    by (rule card_length)
  finally show ?thesis
    using assms(1) by simp
qed

text \<open>
  Claim C9. \<open>compareProducts\<close> returns the validation message and leaves the world as
  it is (no request is sent to the model) when no identifier is given, and when fewer
  than 2 identifiers are given over a product list that keys each product by a distinct
  identifier. (The code counts the products the identifiers select.)
\<close>

theorem compareProducts_validation:
  "(productIds = [] \<longrightarrow>
      compareProducts e productIds allProducts userContext w =
        (Inr ''Please select at least 2 products to compare.'', w)) \<and>
   (length productIds < 2 \<and> distinct (map p_id allProducts) \<longrightarrow>
      compareProducts e productIds allProducts userContext w =
        (Inr ''Please select at least 2 products to compare.'', w))"
proof (intro conjI impI)
  assume "productIds = []"
  then show "compareProducts e productIds allProducts userContext w =
        (Inr ''Please select at least 2 products to compare.'', w)"
    by (simp add: compareProducts_def)
next
  assume "length productIds < 2 \<and> distinct (map p_id allProducts)"
  then have "length (filter (\<lambda>p. p_id p \<in> set productIds) allProducts) < 2"
    by (simp add: few_selected)
  then show "compareProducts e productIds allProducts userContext w =
        (Inr ''Please select at least 2 products to compare.'', w)"
    by (simp add: compareProducts_def)
qed

text \<open>
  Claim C3. When the extracted intent asks for clarification, \<open>processMessage\<close> and
  \<open>processMessageStream\<close> do nothing but the clarification call: the result is that
  call's error, or its text (its stream) with an empty product list; no request
  reaches the catalog and the search cache is untouched.
\<close>

theorem clarification_skips_catalog:
  assumes "extractIntent e userMessage conversationHistory w = (Inr intent, w1)"
      and "i_needs_clarification intent"
  shows "processMessage e userMessage conversationHistory w =
           (case callLLM e (clarification_messages userMessage intent conversationHistory) (7 / 10) 256 w1 of
              (Inl err, w2) \<Rightarrow> (Inl err, w2)
            | (Inr text, w2) \<Rightarrow> (Inr \<lparr>r_message = text, r_products = [], r_intent = intent\<rparr>, w2)) \<and>
         processMessageStream e userMessage conversationHistory w =
           (case callLLMStream e (clarification_messages userMessage intent conversationHistory) (7 / 10) 256 w1 of
              (Inl err, w2) \<Rightarrow> (Inl err, w2)
            | (Inr stream, w2) \<Rightarrow>
                (Inr \<lparr>s_stream = stream, s_products = [], s_allAvailableProducts = None,
                      s_intent = intent\<rparr>, w2)) \<and>
         catalog_calls (snd (processMessage e userMessage conversationHistory w)) = catalog_calls w \<and>
         searchCache (snd (processMessage e userMessage conversationHistory w)) = searchCache w \<and>
         catalog_calls (snd (processMessageStream e userMessage conversationHistory w)) = catalog_calls w \<and>
         searchCache (snd (processMessageStream e userMessage conversationHistory w)) = searchCache w \<and>
         (\<forall>r. fst (processMessage e userMessage conversationHistory w) = Inr r \<longrightarrow> r_products r = []) \<and>
         (\<forall>r. fst (processMessageStream e userMessage conversationHistory w) = Inr r \<longrightarrow> s_products r = [])"
proof -
  have pm: "processMessage e userMessage conversationHistory w =
           (case callLLM e (clarification_messages userMessage intent conversationHistory) (7 / 10) 256 w1 of
              (Inl err, w2) \<Rightarrow> (Inl err, w2)
            | (Inr text, w2) \<Rightarrow> (Inr \<lparr>r_message = text, r_products = [], r_intent = intent\<rparr>, w2))"
    using assms by (simp add: processMessage_def)
  have ps: "processMessageStream e userMessage conversationHistory w =
           (case callLLMStream e (clarification_messages userMessage intent conversationHistory) (7 / 10) 256 w1 of
              (Inl err, w2) \<Rightarrow> (Inl err, w2)
            | (Inr stream, w2) \<Rightarrow>
                (Inr \<lparr>s_stream = stream, s_products = [], s_allAvailableProducts = None,
                      s_intent = intent\<rparr>, w2))"
    using assms by (simp add: processMessageStream_def)
  have w1: "catalog_calls w1 = catalog_calls w \<and> searchCache w1 = searchCache w"
    using assms(1) by (rule extractIntent_keeps_catalog)
  obtain r2 w2 where c: "callLLM e (clarification_messages userMessage intent conversationHistory) (7 / 10) 256 w1 = (r2, w2)"
    by (cases "callLLM e (clarification_messages userMessage intent conversationHistory) (7 / 10) 256 w1")
  obtain r3 w3 where d: "callLLMStream e (clarification_messages userMessage intent conversationHistory) (7 / 10) 256 w1 = (r3, w3)"
    by (cases "callLLMStream e (clarification_messages userMessage intent conversationHistory) (7 / 10) 256 w1")
  have w2: "catalog_calls w2 = catalog_calls w \<and> searchCache w2 = searchCache w"
    using callLLM_keeps_catalog [OF c] w1 by simp
  have w3: "catalog_calls w3 = catalog_calls w \<and> searchCache w3 = searchCache w"
    using callLLMStream_keeps_catalog [OF d] w1 by simp
  have a: "snd (processMessage e userMessage conversationHistory w) = w2"
    unfolding pm c by (cases r2) simp_all
  have b: "snd (processMessageStream e userMessage conversationHistory w) = w3"
    unfolding ps d by (cases r3) simp_all
  have p1: "\<forall>r. fst (processMessage e userMessage conversationHistory w) = Inr r \<longrightarrow> r_products r = []"
    unfolding pm c by (cases r2) auto
  have p2: "\<forall>r. fst (processMessageStream e userMessage conversationHistory w) = Inr r \<longrightarrow> s_products r = []"
    unfolding ps d by (cases r3) auto
  show ?thesis
    using pm ps a b w2 w3 p1 p2 by (simp only: simp_thms)
qed

text \<open>
  Claim C2. A result is meant to show at most 8 products. The mentioned products are
  placed without a limit, though: when the catalog finds ten products and the generated
  text tags nine of them, \<open>processMessage\<close> returns nine products.
\<close>

theorem processMessage_nine_products:
  "(case fst (processMessage (scripted berries_json (Some berries_intent) nine_mentions ten_items)
                ''strawberries for mom'' [] fresh_world) of
      Inl err \<Rightarrow> []
    | Inr r \<Rightarrow> map d_id (r_products r)) = map NumId [1, 2, 3, 4, 5, 6, 7, 8, 9]"
  by code_simp

text \<open>A vague message: the model asks for clarification, and nothing is searched.\<close>

theorem clarification_skips_catalog_witness:
  "fst (extractIntent (scripted vague_json (Some vague_intent) ''Who is the gift for?'' ten_items)
          ''gift'' [] fresh_world) = Inr vague_intent \<and>
   i_needs_clarification vague_intent \<and>
   catalog_calls (snd (processMessage (scripted vague_json (Some vague_intent) ''Who is the gift for?'' ten_items)
          ''gift'' [] fresh_world)) = [] \<and>
   catalog_calls (snd (processMessageStream (scripted vague_json (Some vague_intent) ''Who is the gift for?'' ten_items)
          ''gift'' [] fresh_world)) = [] \<and>
   (\<exists>r. fst (processMessage (scripted vague_json (Some vague_intent) ''Who is the gift for?'' ten_items)
          ''gift'' [] fresh_world) = Inr r \<and> r_products r = [] \<and> r_message r = ''Who is the gift for?'') \<and>
   (\<exists>r. fst (processMessageStream (scripted vague_json (Some vague_intent) ''Who is the gift for?'' ten_items)
          ''gift'' [] fresh_world) = Inr r \<and> s_products r = [])"
proof -
  let ?e = "scripted vague_json (Some vague_intent) ''Who is the gift for?'' ten_items"
  obtain r w1 where x: "extractIntent ?e ''gift'' [] fresh_world = (r, w1)"
    by (cases "extractIntent ?e ''gift'' [] fresh_world")
  have "fst (extractIntent ?e ''gift'' [] fresh_world) = Inr vague_intent"
    by code_simp
  with x have x': "extractIntent ?e ''gift'' [] fresh_world = (Inr vague_intent, w1)"
    by simp
  have n: "i_needs_clarification vague_intent"
    by code_simp
  have c: "catalog_calls fresh_world = []"
    by (simp add: fresh_world_def)
  have m: "(case fst (processMessage ?e ''gift'' [] fresh_world) of
              Inl err \<Rightarrow> False | Inr r \<Rightarrow> r_message r = ''Who is the gift for?'')"
    by code_simp
  have st: "(case fst (processMessageStream ?e ''gift'' [] fresh_world) of
              Inl err \<Rightarrow> False | Inr r \<Rightarrow> True)"
    by code_simp
  from m obtain r1 where r1: "fst (processMessage ?e ''gift'' [] fresh_world) = Inr r1"
      "r_message r1 = ''Who is the gift for?''"
    by (cases "fst (processMessage ?e ''gift'' [] fresh_world)") auto
  from st obtain r2 where r2: "fst (processMessageStream ?e ''gift'' [] fresh_world) = Inr r2"
    by (cases "fst (processMessageStream ?e ''gift'' [] fresh_world)") auto
  from clarification_skips_catalog [OF x' n] c r1 r2 x' n
  show ?thesis by auto
qed

text \<open>A model that answers in prose instead of JSON.\<close>

theorem extractIntent_fallback_witness:
  "fst (callLLM (scripted ''I think you want berries'' None [] []) (intent_messages ''I need a gift now'' [])
          0 512 fresh_world) = Inr ''I think you want berries'' \<and>
   JSON_parse (scripted ''I think you want berries'' None [] []) (jsonStr ''I think you want berries'') = None \<and>
   fst (extractIntent (scripted ''I think you want berries'' None [] []) ''I need a gift now'' [] fresh_world) =
     Inr (fallback_intent ''I need a gift now'') \<and>
   i_search_keywords (fallback_intent ''I need a gift now'') = Some [''I need a'']"
proof -
  let ?e = "scripted ''I think you want berries'' None [] []"
  obtain r w1 where c: "callLLM ?e (intent_messages ''I need a gift now'' []) 0 512 fresh_world = (r, w1)"
    by (cases "callLLM ?e (intent_messages ''I need a gift now'' []) 0 512 fresh_world")
  have f: "fst (callLLM ?e (intent_messages ''I need a gift now'' []) 0 512 fresh_world) =
            Inr ''I think you want berries''"
    by code_simp
  with c have c': "callLLM ?e (intent_messages ''I need a gift now'' []) 0 512 fresh_world =
            (Inr ''I think you want berries'', w1)"
    by simp
  have p: "JSON_parse ?e (jsonStr ''I think you want berries'') = None"
    by code_simp
  have k: "join_with '' '' (take 3 (split_on CHR '' '' ''I need a gift now'')) = ''I need a''"
    by code_simp
  from extractIntent_fallback [OF c' p] f p k show ?thesis by simp
qed

text \<open>One identifier selected out of three products.\<close>

theorem compareProducts_validation_witness:
  "length [NumId 1] < 2 \<and>
   distinct (map p_id [strawberries, fruit_bouquet, cookie_tin]) \<and>
   fst (compareProducts small_shop [NumId 1] [strawberries, fruit_bouquet, cookie_tin] [] fresh_world) =
     Inr ''Please select at least 2 products to compare.'' \<and>
   nim_calls (snd (compareProducts small_shop [NumId 1] [strawberries, fruit_bouquet, cookie_tin] []
     fresh_world)) = []"
proof -
  have l: "length [NumId 1] < 2"
    by simp
  have d: "distinct (map p_id [strawberries, fruit_bouquet, cookie_tin])"
    by code_simp
  have n: "nim_calls fresh_world = []"
    by (simp add: fresh_world_def)
  from compareProducts_validation
      [of "[NumId 1]" small_shop "[strawberries, fruit_bouquet, cookie_tin]" "[]" fresh_world] l d n
  show ?thesis by simp
qed

text \<open>
  Over a product list in which two products share an identifier, one identifier
  selects two products, and the comparison is sent to the model.
\<close>

theorem compareProducts_one_identifier_two_products:
  "length [NumId 1] < 2 \<and>
   fst (compareProducts (scripted ''Both boxes are lovely.'' None [] []) [NumId 1]
          [strawberries, strawberries_large] [] fresh_world) = Inr ''Both boxes are lovely.'' \<and>
   length (nim_calls (snd (compareProducts (scripted ''Both boxes are lovely.'' None [] []) [NumId 1]
          [strawberries, strawberries_large] [] fresh_world))) = 1"
proof -
  have a: "fst (compareProducts (scripted ''Both boxes are lovely.'' None [] []) [NumId 1]
          [strawberries, strawberries_large] [] fresh_world) = Inr ''Both boxes are lovely.''"
    by code_simp
  have b: "length (nim_calls (snd (compareProducts (scripted ''Both boxes are lovely.'' None [] []) [NumId 1]
          [strawberries, strawberries_large] [] fresh_world))) = 1"
    by code_simp
  from a b show ?thesis by simp
qed

end
